theory Spec2Isabelle
  imports Complex_Main "HOL-Library.AList"
begin

section \<open>Errors\<close>

text \<open>
  Every Python exception the modelled code can raise is a value. A function that can
  raise returns \<open>error + 'a\<close>, with \<open>Inl\<close> for the exception. A missing key of a
  degree-indexed dictionary is \<open>KeyError degree\<close>; a missing key \<open>'di,do'\<close> of the basis
  or kernel dictionaries is \<open>KernelKeyError di do\<close>.
\<close>

datatype error =
    IndexError
  | KeyError nat
  | KernelKeyError nat nat
  | AssertionError string
  | ZeroDivisionError
  | RuntimeError
  | ValueError
  | TypeError
  | NameError
  | AttributeError
  | StopIteration

text \<open>Running a list of fallible computations: the first exception wins.\<close>

fun sequence_err :: "(error + 'a) list \<Rightarrow> error + 'a list" where
  "sequence_err [] = Inr []"
| "sequence_err (Inl e # _) = Inl e"
| "sequence_err (Inr x # rest) =
     (case sequence_err rest of Inl e \<Rightarrow> Inl e | Inr xs \<Rightarrow> Inr (x # xs))"

section \<open>Fiber functions (equiformer\_pytorch.py, lines 23--47)\<close>

text \<open>
  A fiber is a \<open>Tuple[int, ...]\<close>: entry \<open>d\<close> is the channel count of degree \<open>d\<close>.
  Python's \<open>enumerate(t)\<close> is \<open>List.enumerate 0 t\<close>.
\<close>

type_synonym fiber = "int list"

definition fiber_product ::
  "fiber \<Rightarrow> fiber \<Rightarrow> ((nat \<times> int) \<times> (nat \<times> int)) list" where
  "fiber_product fiber_in fiber_out =
     List.product (List.enumerate 0 fiber_in) (List.enumerate 0 fiber_out)"

text \<open>
  The loop of \<open>fiber_and\<close> (lines 40--45), with the list \<open>out\<close> it appends to as an
  accumulator. \<open>fiber_out_degrees\<close> is \<open>set(range(len(fiber_out)))\<close>.
\<close>

fun fiber_and_loop ::
  "(nat \<times> int) list \<Rightarrow> fiber \<Rightarrow> (nat \<times> int \<times> int) list \<Rightarrow> (nat \<times> int \<times> int) list" where
  "fiber_and_loop [] fiber_out out = out"
| "fiber_and_loop ((degree, dim_in) # rest) fiber_out out =
     (if degree \<notin> set [0..<length fiber_out]
      then fiber_and_loop rest fiber_out out
      else fiber_and_loop rest fiber_out (out @ [(degree, dim_in, fiber_out ! degree)]))"

definition fiber_and :: "fiber \<Rightarrow> fiber \<Rightarrow> (nat \<times> int \<times> int) list" where
  "fiber_and fiber_in fiber_out = fiber_and_loop (List.enumerate 0 fiber_in) fiber_out []"

section \<open>Helper functions of equiformer\_pytorch/utils.py\<close>

text \<open>
  The module \<open>equiformer_pytorch/utils.py\<close> is imported at line 13 and is not part of the
  sources at hand. The helpers the modelled code calls are modelled from the
  specification.
\<close>

text \<open>
  Modelled from the spec: \<open>to_order\<close> of utils.py is missing. The glossary gives the order
  of a degree as \<open>2d+1\<close>.
\<close>

definition to_order :: "nat \<Rightarrow> nat" where
  "to_order degree = 2 * degree + 1"

text \<open>
  Modelled from the spec: \<open>cast_tuple\<close> of utils.py is missing. Section 9 describes the
  parameters given as a scalar or a tuple and their normalisation to one entry per
  degree: a tuple is kept, a scalar is repeated \<open>depth\<close> times.
\<close>

datatype int_or_tuple = IntVal int | TupleVal "int list"

definition cast_tuple :: "int_or_tuple \<Rightarrow> int \<Rightarrow> int list" where
  "cast_tuple val depth =
     (case val of TupleVal t \<Rightarrow> t | IntVal v \<Rightarrow> replicate (nat depth) v)"

text \<open>
  Modelled from the spec: \<open>exists\<close> and \<open>default\<close> of utils.py are missing. An optional
  value is an \<open>option\<close>; \<open>exists(v)\<close> is \<open>v \<noteq> None\<close> and \<open>default(v, d)\<close> is \<open>v\<close> when it exists
  and \<open>d\<close> otherwise.
\<close>

definition default_val :: "'a option \<Rightarrow> 'a \<Rightarrow> 'a" where
  "default_val val d = (case val of Some v \<Rightarrow> v | None \<Rightarrow> d)"

text \<open>
  Modelled from the spec: \<open>fast_split\<close> of utils.py is missing. Section 4.7 says that the
  computation is chunked along the sequence axis into \<open>splits\<close> pieces that are
  concatenated back. A tensor is seen along the axis that is split, as the list of its
  slices; \<open>narrow arr s l\<close> is the piece of \<open>l\<close> slices from position \<open>s\<close>. The model cuts
  the axis into \<open>min(len, max(splits, 1))\<close> contiguous pieces, the first
  \<open>len mod splits\<close> of them one slice longer than the others. An axis of length 0 gives
  no piece.
\<close>

definition narrow :: "'a list \<Rightarrow> nat \<Rightarrow> nat \<Rightarrow> 'a list" where
  "narrow arr s l = take l (drop s arr)"

fun fast_split_loop :: "'a list \<Rightarrow> nat \<Rightarrow> nat \<Rightarrow> int \<Rightarrow> nat \<Rightarrow> 'a list list" where
  "fast_split_loop arr 0 chunk_size remainder s = []"
| "fast_split_loop arr (Suc i) chunk_size remainder s =
     (let adjust = (if remainder > 0 then 1 else 0) in
      narrow arr s (chunk_size + adjust)
        # fast_split_loop arr i chunk_size (remainder - 1) (s + (chunk_size + adjust)))"

definition fast_split :: "'a list \<Rightarrow> int \<Rightarrow> 'a list list" where
  "fast_split arr splits =
     (let axis_len = length arr;
          splits' = min axis_len (nat (max splits 1));
          chunk_size = axis_len div splits';
          remainder = int axis_len - int (chunk_size * splits')
      in fast_split_loop arr splits' chunk_size remainder 0)"

text \<open>
  Modelled from the spec: \<open>safe_cat\<close> of utils.py is missing. It concatenates a chunk to
  the chunks gathered so far (section 4.7), which are \<open>None\<close> before the first one.
\<close>

definition safe_cat :: "'a list option \<Rightarrow> 'a list \<Rightarrow> 'a list" where
  "safe_cat arr el = (case arr of None \<Rightarrow> el | Some a \<Rightarrow> a @ el)"

text \<open>
  Modelled from the spec: \<open>batched_index_select\<close> of utils.py is missing. Section 4.7
  says that it gathers values by \<open>neighbor_indices\<close>. For a tensor of shape
  \<open>[batch, nodes, candidates]\<close> and indices of shape \<open>[batch, nodes, k]\<close> with \<open>dim = 2\<close>,
  entry \<open>[b, i, j]\<close> of the result is \<open>values[b, i, indices[b, i, j]]\<close>. An index outside the
  axis and leading shapes that differ raise, as \<open>torch.gather\<close> does.
\<close>

definition select_row :: "'a list \<Rightarrow> nat list \<Rightarrow> error + 'a list" where
  "select_row vals idx =
     sequence_err (map (\<lambda>j. if j < length vals then Inr (vals ! j) else Inl IndexError) idx)"

definition batched_index_select2 ::
  "'a list list list \<Rightarrow> nat list list list \<Rightarrow> error + 'a list list list" where
  "batched_index_select2 vals idx =
     (if length vals \<noteq> length idx then Inl RuntimeError
      else sequence_err (map2 (\<lambda>vb ib.
             if length vb \<noteq> length ib then Inl RuntimeError
             else sequence_err (map2 select_row vb ib)) vals idx))"

text \<open>
  Python's \<open>zip(*lists)\<close>: the list of the tuples of first entries, second entries, and so
  on, as long as every list has one.
\<close>

function zip_star :: "'a list list \<Rightarrow> 'a list list" where
  "zip_star xss =
     (if xss = [] \<or> [] \<in> set xss then [] else map hd xss # zip_star (map tl xss))"
  by pat_completeness auto
termination
proof (relation "measure (\<lambda>xss. length (hd xss))")
  show "wf (measure (\<lambda>xss::'a list list. length (hd xss)))" by simp
next
  fix xss :: "'a list list"
  assume a: "\<not> (xss = [] \<or> [] \<in> set xss)"
  then obtain x rest where xss: "xss = x # rest" by (cases xss) auto
  with a have "x \<noteq> []" by auto
  then show "(map tl xss, xss) \<in> measure (\<lambda>xss. length (hd xss))"
    by (simp add: xss)
qed

declare zip_star.simps [simp del]


text \<open>
  The decimal numeral of an integer, as an f-string formats it (\<open>f'{d}'\<close>).
\<close>

definition digit_char :: "nat \<Rightarrow> char" where
  "digit_char n = ''0123456789'' ! n"

function str_nat :: "nat \<Rightarrow> string" where
  "str_nat n = (if n < 10 then [digit_char n] else str_nat (n div 10) @ [digit_char (n mod 10)])"
  by pat_completeness auto
termination
  by (relation "measure (\<lambda>n. n)") auto

declare str_nat.simps [simp del]

definition str_int :: "int \<Rightarrow> string" where
  "str_int i = (if i < 0 then CHR ''-'' # str_nat (nat (- i)) else str_nat (nat i))"
section \<open>The range of the floating-point format\<close>

text \<open>
  The tensors hold floating-point numbers. Their arithmetic is modelled over the reals,
  together with the two ways in which the range of the format shows in a result: a
  value above \<open>fmt_max\<close>, the largest finite number (\<open>torch.finfo(dtype).max\<close>),
  overflows to infinity, and a value of at most \<open>fmt_underflow\<close> rounds to 0. An
  infinite result is \<open>None\<close>. \<open>fmt_tiny\<close> is the smallest positive normal number
  (\<open>torch.finfo(dtype).tiny\<close>): from there on a value is held with the full relative
  precision of the format. The rounding of a value inside the range is not modelled.
  For \<open>float32\<close>, the default type of the parameters, \<open>fmt_tiny\<close> is \<open>2 ** -126\<close> and
  \<open>fmt_underflow\<close> is \<open>2 ** -150\<close>, half of the smallest positive number of the format.
\<close>

record fmt =
  fmt_max :: real
  fmt_tiny :: real
  fmt_underflow :: real

definition float32 :: fmt where
  "float32 = \<lparr> fmt_max = 340282346638528859811704183484516925440,
               fmt_tiny = 1 / 2 ^ 126,
               fmt_underflow = 1 / 2 ^ 150 \<rparr>"

definition fmt_ok :: "fmt \<Rightarrow> bool" where
  "fmt_ok fm \<longleftrightarrow>
     0 < fmt_underflow fm \<and> fmt_underflow fm < fmt_tiny fm \<and> fmt_tiny fm < 1 \<and> 1 < fmt_max fm"

definition flush :: "fmt \<Rightarrow> real \<Rightarrow> real" where
  "flush fm v = (if v \<le> fmt_underflow fm then 0 else v)"

definition overflow :: "fmt \<Rightarrow> real \<Rightarrow> real option" where
  "overflow fm v = (if fmt_max fm < v then None else Some v)"

section \<open>The numeric runtime\<close>

text \<open>
  The tensor expressions of the modules (einsum, rearrange, view, activation functions,
  the radial network, embedding tables, top-k, the basis provider) are computed by
  PyTorch, einops and \<open>equiformer_pytorch.basis\<close>, outside the sources at hand. They are
  the fields of a record of operations that every modelled \<open>forward\<close> takes as its first
  argument, so that every theorem holds for every such runtime. The operations are
  total functions: the shape errors of the numeric runtime are not modelled, with the
  exception of the index selection above and of \<open>0 ** -0.5\<close>.

  A tensor of shape \<open>[batch, nodes, ...]\<close> is the list of its slices along the node axis
  (axis 1), of an arbitrary type \<open>'s\<close>; the operations that act at each node separately
  are given on slices, the others on whole tensors. Every learned parameter has the
  arbitrary type \<open>'w\<close>. Index tensors of shape \<open>[batch, nodes, k]\<close> are nested lists of
  naturals.
\<close>

type_synonym 's tensor = "'s list"
type_synonym 's features = "(nat \<times> 's tensor) list"
type_synonym 's basis = "((nat \<times> nat) \<times> 's tensor) list"
type_synonym index_tensor = "nat list list list"

record ('s, 'w) ops =
  op_linear :: "'s tensor \<Rightarrow> 'w \<Rightarrow> 's tensor"
  op_rmsnorm :: "real \<Rightarrow> 'w \<Rightarrow> 's tensor \<Rightarrow> error + 's tensor"
  op_add :: "'s tensor \<Rightarrow> 's tensor \<Rightarrow> 's tensor"
  op_split :: "'s tensor \<Rightarrow> int list \<Rightarrow> 's tensor list"
  op_silu :: "'s tensor \<Rightarrow> 's tensor"
  op_sigmoid_mul :: "'s tensor \<Rightarrow> 's tensor \<Rightarrow> 's tensor"
  op_unsqueeze :: "'s \<Rightarrow> 's"
  op_index_select :: "'s tensor \<Rightarrow> index_tensor \<Rightarrow> 's tensor"
  op_view_in :: "int \<Rightarrow> 's \<Rightarrow> 's"
  op_cat_last :: "'s \<Rightarrow> 's \<Rightarrow> 's"
  op_radial :: "'w \<Rightarrow> int \<Rightarrow> int \<Rightarrow> 's \<Rightarrow> 's"
  op_contract :: "int \<Rightarrow> 's \<Rightarrow> 's \<Rightarrow> 's"
  op_einsum :: "'s \<Rightarrow> 's \<Rightarrow> 's"
  op_masked_mean :: "'s tensor \<Rightarrow> 's tensor \<Rightarrow> 's tensor"
  op_mean :: "'s tensor \<Rightarrow> 's tensor"
  op_view_out :: "bool \<Rightarrow> nat \<Rightarrow> 's tensor \<Rightarrow> 's tensor \<Rightarrow> 's tensor"
  op_mask_rearrange :: "'s tensor \<Rightarrow> 's tensor"
  op_attend ::
    "int \<Rightarrow> real \<Rightarrow> 's tensor \<Rightarrow> 's tensor \<Rightarrow> 's tensor
       \<Rightarrow> ('s tensor \<times> 's tensor) option \<Rightarrow> 's tensor option \<Rightarrow> 's tensor"
  op_embed :: "'w \<Rightarrow> 's tensor \<Rightarrow> 's tensor"
  op_pos_embed :: "'w \<Rightarrow> 's tensor \<Rightarrow> 's tensor"
  op_unsqueeze_last :: "'s tensor \<Rightarrow> 's tensor"
  op_batch :: "'s tensor \<Rightarrow> nat"
  op_channels :: "'s tensor \<Rightarrow> int"
  op_rel_pos :: "'s tensor \<Rightarrow> 's tensor"
  op_remove_self :: "'s tensor \<Rightarrow> 's tensor"
  op_outer :: "'s tensor \<Rightarrow> 's tensor"
  op_norm_last :: "'s tensor \<Rightarrow> 's tensor"
  op_mask_distance :: "'s tensor \<Rightarrow> 's tensor \<Rightarrow> 's tensor"
  op_topk :: "'s tensor \<Rightarrow> int \<Rightarrow> 's tensor \<times> index_tensor"
  op_le :: "'s tensor \<Rightarrow> real \<Rightarrow> 's tensor"
  op_select_neighbors :: "'s tensor \<Rightarrow> index_tensor \<Rightarrow> 's tensor"
  op_and :: "'s tensor \<Rightarrow> 's tensor \<Rightarrow> 's tensor"
  op_get_basis :: "'s tensor \<Rightarrow> int \<Rightarrow> bool \<Rightarrow> 's basis"
  op_squeeze_channel :: "'s tensor \<Rightarrow> 's tensor"
  op_pool_nodes :: "'s tensor \<Rightarrow> 's tensor option \<Rightarrow> 's tensor"
  op_squeeze_order :: "'s tensor \<Rightarrow> 's tensor"

text \<open>
  The values of the learned parameters are an argument of every constructor: a function
  from the position of a parameter in the tree of modules (a path of naturals) to its
  value. Every parameter has a position of its own, so a constructed module can hold any
  values, initial or trained.
\<close>

type_synonym 'w init = "nat list \<Rightarrow> 'w"

definition sub_init :: "'w init \<Rightarrow> nat list \<Rightarrow> 'w init" where
  "sub_init init path = (\<lambda>p. init (path @ p))"

section \<open>residual\_fn (lines 55--64)\<close>

fun residual_loop ::
  "('s tensor \<Rightarrow> 's tensor \<Rightarrow> 's tensor) \<Rightarrow> 's features \<Rightarrow> 's features \<Rightarrow> 's features
     \<Rightarrow> 's features" where
  "residual_loop add [] residual out = out"
| "residual_loop add ((degree, tensor) # rest) residual out =
     (let out = AList.update degree tensor out in
      case map_of residual degree of
        None \<Rightarrow> residual_loop add rest residual out
      | Some r \<Rightarrow> residual_loop add rest residual (AList.update degree (add tensor r) out))"

definition residual_fn ::
  "('s, 'w) ops \<Rightarrow> 's features \<Rightarrow> 's features \<Rightarrow> 's features" where
  "residual_fn ops x residual = residual_loop (op_add ops) x residual []"

section \<open>Linear (lines 68--89)\<close>

text \<open>
  \<open>Linear.__init__\<close> (lines 75--81) appends one weight and one degree per triple of
  \<open>fiber_and\<close>. The weight of degree \<open>d\<close> is \<open>init [d]\<close>.
\<close>

record 'w Linear =
  Linear_weights :: "'w list"
  Linear_degrees :: "nat list"

definition Linear_init :: "'w init \<Rightarrow> fiber \<Rightarrow> fiber \<Rightarrow> 'w Linear" where
  "Linear_init init fiber_in fiber_out =
     \<lparr> Linear_weights =
         map (\<lambda>(degree, dim_in, dim_out). init [degree]) (fiber_and fiber_in fiber_out),
       Linear_degrees = map (\<lambda>(degree, dim_in, dim_out). degree) (fiber_and fiber_in fiber_out) \<rparr>"

text \<open>
  \<open>Linear.forward\<close> (lines 83--89): \<open>x[degree]\<close> raises \<open>KeyError\<close> for a degree the input
  lacks.
\<close>

fun Linear_loop ::
  "('s, 'w) ops \<Rightarrow> (nat \<times> 'w) list \<Rightarrow> 's features \<Rightarrow> 's features \<Rightarrow> error + 's features" where
  "Linear_loop ops [] x out = Inr out"
| "Linear_loop ops ((degree, weight) # rest) x out =
     (case map_of x degree of
        None \<Rightarrow> Inl (KeyError degree)
      | Some t \<Rightarrow> Linear_loop ops rest x (AList.update degree (op_linear ops t weight) out))"

definition Linear_forward :: "('s, 'w) ops \<Rightarrow> 'w Linear \<Rightarrow> 's features \<Rightarrow> error + 's features" where
  "Linear_forward ops self x =
     Linear_loop ops (zip (Linear_degrees self) (Linear_weights self)) x []"

section \<open>Norm (lines 91--121)\<close>

text \<open>
  A degree-indexed feature map is a Python dictionary, which keeps the order of
  insertion: an association list with \<open>AList.update\<close> for \<open>out[degree] = v\<close> and
  \<open>map_of\<close> for \<open>x[degree]\<close>.

  \<open>Norm.__init__\<close> (lines 103--108) appends one scale parameter per degree of the fiber.
  The scale of degree \<open>d\<close> is \<open>init [d]\<close> (\<open>torch.ones(dim, 1)\<close> before training).
\<close>

record 'w Norm =
  Norm_eps :: real
  Norm_transforms :: "'w list"

definition Norm_init :: "'w init \<Rightarrow> fiber \<Rightarrow> real \<Rightarrow> 'w Norm" where
  "Norm_init init fiber eps =
     \<lparr> Norm_eps = eps,
       Norm_transforms = map (\<lambda>(degree, dim_d). init [degree]) (List.enumerate 0 fiber) \<rparr>"

text \<open>
  \<open>Norm.forward\<close> (lines 110--121): the loop runs over
  \<open>zip(self.transforms, features.items())\<close>. The tensor expression of lines 114--119 is
  the argument \<open>nrm\<close>, so that the loop is the same for every tensor type.
\<close>

fun Norm_loop ::
  "(real \<Rightarrow> 'w \<Rightarrow> 't \<Rightarrow> error + 't) \<Rightarrow> real \<Rightarrow> ('w \<times> (nat \<times> 't)) list
     \<Rightarrow> (nat \<times> 't) list \<Rightarrow> error + (nat \<times> 't) list" where
  "Norm_loop nrm eps [] outp = Inr outp"
| "Norm_loop nrm eps ((scale, (degree, t)) # rest) outp =
     (case nrm eps scale t of
        Inl e \<Rightarrow> Inl e
      | Inr v \<Rightarrow> Norm_loop nrm eps rest (AList.update degree v outp))"

definition Norm_forward ::
  "(real \<Rightarrow> 'w \<Rightarrow> 't \<Rightarrow> error + 't) \<Rightarrow> 'w Norm \<Rightarrow> (nat \<times> 't) list
     \<Rightarrow> error + (nat \<times> 't) list" where
  "Norm_forward nrm self features =
     Norm_loop nrm (Norm_eps self) (zip (Norm_transforms self) features) []"

subsection \<open>The tensor expression of lines 114--119\<close>

text \<open>
  A feature tensor of shape \<open>[batch, nodes, channels, order]\<close> is a four-fold nested list
  of reals. At one (batch, node) position it is a matrix of \<open>channels\<close> rows.

  \<open>t.norm(dim = -1, keepdim = True)\<close> is \<open>l2norm\<close> of each row: the square root of the sum
  of the squares, where a square of at most \<open>fmt_underflow\<close> counts as 0 and a sum above
  \<open>fmt_max\<close> makes the norm infinite. \<open>l2normed.norm(dim = -2, keepdim = True) * (dim ** -0.5)\<close>
  is \<open>rms_of\<close>, infinite as soon as one of the row norms is, and \<open>rms.clamp(min = eps)\<close>
  is \<open>max rms eps\<close>. Dividing by an infinite root mean square gives 0.
  \<open>dim = t.shape[-2]\<close> is the number of rows; Python raises \<open>ZeroDivisionError\<close> for
  \<open>0 ** -0.5\<close>. The scale parameter has shape \<open>(dim, 1)\<close> and is broadcast against the
  channel axis (\<open>mul_scale\<close>).
\<close>

definition l2norm :: "fmt \<Rightarrow> real list \<Rightarrow> real option" where
  "l2norm fm v = map_option sqrt (overflow fm (\<Sum>x\<leftarrow>v. flush fm (x\<^sup>2)))"

definition rms_of :: "fmt \<Rightarrow> real list list \<Rightarrow> real option" where
  "rms_of fm mat =
     (case those (map (l2norm fm) mat) of
        None \<Rightarrow> None
      | Some l2normed \<Rightarrow>
          map_option (\<lambda>s. sqrt s * (real (length mat) powr (- 1 / 2)))
            (overflow fm (\<Sum>y\<leftarrow>l2normed. flush fm (y\<^sup>2))))"

definition mul_scale :: "real list list \<Rightarrow> real list \<Rightarrow> error + real list list" where
  "mul_scale rows scale =
     (if length scale = length rows then Inr (map2 (\<lambda>row s. map (\<lambda>x. x * s) row) rows scale)
      else if length scale = 1 then Inr (map (map (\<lambda>x. x * scale ! 0)) rows)
      else if length rows = 1 then Inr (map (\<lambda>s. map (\<lambda>x. x * s) (rows ! 0)) scale)
      else Inl RuntimeError)"

definition Norm_matrix ::
  "fmt \<Rightarrow> real \<Rightarrow> real list \<Rightarrow> real list list \<Rightarrow> error + real list list" where
  "Norm_matrix fm eps scale mat =
     (let dim_t = length mat in
      if dim_t = 0 then Inl ZeroDivisionError
      else
        case rms_of fm mat of
          None \<Rightarrow> mul_scale (map (map (\<lambda>x. 0)) mat) scale
        | Some rms \<Rightarrow> mul_scale (map (map (\<lambda>x. x / max rms eps)) mat) scale)"

definition Norm_tensor ::
  "fmt \<Rightarrow> real \<Rightarrow> real list \<Rightarrow> real list list list list
     \<Rightarrow> error + real list list list list" where
  "Norm_tensor fm eps scale t =
     sequence_err (map (\<lambda>batch. sequence_err (map (Norm_matrix fm eps scale) batch)) t)"

text \<open>Scaling a tensor by a constant: \<open>c * t\<close>.\<close>

definition scale_tensor :: "real \<Rightarrow> real list list list list \<Rightarrow> real list list list list" where
  "scale_tensor c t = map (map (map (map ((*) c)))) t"

text \<open>
  The root mean square of a matrix in exact arithmetic, and the matrices on which the
  norms of lines 114--115 stay inside the range of the format: every entry is 0 or has
  a square of at least \<open>fmt_tiny\<close>, and the sum of all the squares is at most \<open>fmt_max\<close>.
\<close>

definition rms_exact :: "real list list \<Rightarrow> real" where
  "rms_exact mat = sqrt (\<Sum>row\<leftarrow>mat. \<Sum>x\<leftarrow>row. x\<^sup>2) * (real (length mat) powr (- 1 / 2))"

definition in_range :: "fmt \<Rightarrow> real list list \<Rightarrow> bool" where
  "in_range fm mat \<longleftrightarrow>
     list_all (list_all (\<lambda>x. x = 0 \<or> fmt_tiny fm \<le> x\<^sup>2)) mat
     \<and> (\<Sum>row\<leftarrow>mat. \<Sum>x\<leftarrow>row. x\<^sup>2) \<le> fmt_max fm"

section \<open>Gate (lines 123--155)\<close>

record Gate =
  Gate_fiber :: fiber
  Gate_num_degrees :: nat
  type0_dim_split :: "int list"

text \<open>
  \<open>Gate.__init__\<close> (lines 125--138). \<open>fiber[0]\<close> raises \<open>IndexError\<close> on the empty
  tuple; the assertion of line 134 raises \<open>AssertionError\<close>.
\<close>

definition Gate_assert_msg :: string where
  "Gate_assert_msg = ''sum of channels from rest of the degrees must be less than the channels in type 0, as they would be used up for gating and subtracted out''"

definition Gate_init :: "fiber \<Rightarrow> error + Gate" where
  "Gate_init fiber =
     (case fiber of
        [] \<Rightarrow> Inl IndexError
      | type0_dim # _ \<Rightarrow>
          (let dim_gate = sum_list (drop 1 fiber) in
           if \<not> type0_dim > dim_gate then Inl (AssertionError Gate_assert_msg)
           else Inr \<lparr> Gate_fiber = fiber,
                      Gate_num_degrees = length fiber,
                      type0_dim_split = drop 1 fiber @ [type0_dim - dim_gate] \<rparr>))"

text \<open>
  \<open>Gate.forward\<close> (lines 140--155). \<open>*gates, type0_tensor = ...\<close> takes the last piece of the
  split as the new degree-0 tensor and raises \<open>ValueError\<close> when there is no piece.
\<close>

fun Gate_loop ::
  "('s, 'w) ops \<Rightarrow> (nat \<times> 's tensor) list \<Rightarrow> 's features \<Rightarrow> 's features \<Rightarrow> error + 's features" where
  "Gate_loop ops [] x outp = Inr outp"
| "Gate_loop ops ((degree, gate) # rest) x outp =
     (case map_of x degree of
        None \<Rightarrow> Inl (KeyError degree)
      | Some t \<Rightarrow> Gate_loop ops rest x (AList.update degree (op_sigmoid_mul ops t gate) outp))"

definition Gate_forward :: "('s, 'w) ops \<Rightarrow> Gate \<Rightarrow> 's features \<Rightarrow> error + 's features" where
  "Gate_forward ops self x =
     (case map_of x 0 of
        None \<Rightarrow> Inl (KeyError 0)
      | Some type0_tensor \<Rightarrow>
          (let pieces = op_split ops type0_tensor (type0_dim_split self) in
           if pieces = [] then Inl ValueError
           else
             let gates = butlast pieces; type0_tensor = last pieces in
             Gate_loop ops (zip [1..<Gate_num_degrees self] gates) x
               [(0, op_silu ops type0_tensor)]))"

section \<open>RadialFunc and PairwiseConv (lines 250--316)\<close>

text \<open>
  The network of \<open>RadialFunc\<close> (lines 265--273) is one learned parameter; its forward
  (lines 275--277) acts on the last axis only, so it is given at one node position by
  the runtime operation \<open>op_radial\<close>.
\<close>

record 'w RadialFunc =
  RF_num_freq :: nat
  RF_in_dim :: int
  RF_mid_dim :: int
  RF_out_dim :: int
  RF_net :: 'w

definition RadialFunc_init ::
  "'w init \<Rightarrow> nat \<Rightarrow> int \<Rightarrow> int \<Rightarrow> int option \<Rightarrow> int \<Rightarrow> 'w RadialFunc" where
  "RadialFunc_init init num_freq in_dim out_dim edge_dim mid_dim =
     \<lparr> RF_num_freq = num_freq, RF_in_dim = in_dim, RF_mid_dim = mid_dim,
       RF_out_dim = out_dim, RF_net = init [] \<rparr>"

definition RadialFunc_forward :: "('s, 'w) ops \<Rightarrow> 'w RadialFunc \<Rightarrow> 's \<Rightarrow> 's" where
  "RadialFunc_forward ops self x = op_radial ops (RF_net self) (RF_in_dim self) (RF_out_dim self) x"

record 'w PairwiseConv =
  PC_degree_in :: nat
  PC_degree_out :: nat
  PC_nc_in :: int
  PC_nc_out :: int
  PC_num_freq :: nat
  PC_d_out :: nat
  PC_edge_dim :: "int option"
  PC_rp :: "'w RadialFunc"

definition PairwiseConv_init ::
  "'w init \<Rightarrow> nat \<Rightarrow> int \<Rightarrow> nat \<Rightarrow> int \<Rightarrow> int option \<Rightarrow> 'w PairwiseConv" where
  "PairwiseConv_init init degree_in nc_in degree_out nc_out edge_dim =
     (let num_freq = to_order (min degree_in degree_out) in
      \<lparr> PC_degree_in = degree_in, PC_degree_out = degree_out,
        PC_nc_in = nc_in, PC_nc_out = nc_out,
        PC_num_freq = num_freq, PC_d_out = to_order degree_out,
        PC_edge_dim = edge_dim,
        PC_rp = RadialFunc_init init num_freq nc_in nc_out edge_dim 128 \<rparr>)"

text \<open>
  \<open>PairwiseConv.forward\<close> (lines 300--316) on a chunk: \<open>feat\<close> and the basis tensors are
  lists of slices along the node axis. \<open>basis[f'{degree_in},{degree_out}']\<close> raises for a
  missing key. The sum over the frequencies and the reshaping of lines 304--316 act at
  each node position (\<open>op_contract\<close>).
\<close>

definition PairwiseConv_forward ::
  "('s, 'w) ops \<Rightarrow> 'w PairwiseConv \<Rightarrow> 's tensor \<Rightarrow> 's basis \<Rightarrow> error + 's tensor" where
  "PairwiseConv_forward ops self feat basis =
     (let R = map (RadialFunc_forward ops (PC_rp self)) feat in
      case map_of basis (PC_degree_in self, PC_degree_out self) of
        None \<Rightarrow> Inl (KernelKeyError (PC_degree_in self) (PC_degree_out self))
      | Some B \<Rightarrow> Inr (map2 (op_contract ops (int (PC_d_out self) * PC_nc_out self)) R B))"

section \<open>Conv (lines 157--248)\<close>

record 'w Conv =
  Conv_fiber_in :: fiber
  Conv_fiber_out :: fiber
  Conv_edge_dim :: "int option"
  Conv_self_interaction :: bool
  Conv_kernel_unary :: "((nat \<times> nat) \<times> 'w PairwiseConv) list"
  Conv_splits :: int
  Conv_pool :: bool
  Conv_self_interact :: "'w Linear option"

text \<open>
  \<open>Conv.__init__\<close> (lines 159--185). The kernel of the pair \<open>(di, do)\<close> takes its parameter
  at position \<open>[0, di, do]\<close>, the self-interaction at position \<open>[1]\<close>.
\<close>

definition Conv_init ::
  "'w init \<Rightarrow> fiber \<Rightarrow> fiber \<Rightarrow> bool \<Rightarrow> bool \<Rightarrow> int option \<Rightarrow> int \<Rightarrow> error + 'w Conv" where
  "Conv_init init fiber_in fiber_out self_interaction pool edge_dim splits =
     (let kernel_unary =
            map (\<lambda>((d_in, m_in), (d_out, m_out)).
                   ((d_in, d_out),
                    PairwiseConv_init (sub_init init [0, d_in, d_out]) d_in m_in d_out m_out edge_dim))
              (fiber_product fiber_in fiber_out)
      in
      if self_interaction \<and> \<not> pool
      then Inl (AssertionError ''must pool edges if followed with self interaction'')
      else Inr \<lparr> Conv_fiber_in = fiber_in, Conv_fiber_out = fiber_out,
                 Conv_edge_dim = edge_dim, Conv_self_interaction = self_interaction,
                 Conv_kernel_unary = kernel_unary, Conv_splits = splits, Conv_pool = pool,
                 Conv_self_interact =
                   (if self_interaction then Some (Linear_init (sub_init init [1]) fiber_in fiber_out)
                    else None) \<rparr>)"

text \<open>
  The edge information is the triple \<open>(neighbor_indices, neighbor_masks, edges)\<close>.
\<close>

type_synonym 's edge_info = "index_tensor \<times> 's tensor option \<times> 's tensor option"

text \<open>
  The split basis (lines 203--205): every basis tensor is split along the node axis, and
  chunk \<open>j\<close> of the basis is the dictionary of the \<open>j\<close>-th pieces.
\<close>

definition Conv_split_basis :: "'s basis \<Rightarrow> int \<Rightarrow> 's basis list" where
  "Conv_split_basis basis splits =
     (let basis_keys = map fst basis;
          split_basis_values = zip_star (map (\<lambda>t. fast_split t splits) (map snd basis))
      in map (\<lambda>v. zip basis_keys v) split_basis_values)"

text \<open>
  The loop over the chunks (lines 229--232), with \<open>output_chunk\<close> as its state.
\<close>

fun Conv_chunks ::
  "('s, 'w) ops \<Rightarrow> 'w PairwiseConv \<Rightarrow> ('s tensor \<times> 's tensor \<times> 's basis) list
     \<Rightarrow> 's tensor option \<Rightarrow> error + 's tensor option" where
  "Conv_chunks ops kernel_fn [] output_chunk = Inr output_chunk"
| "Conv_chunks ops kernel_fn ((x_chunk, edge_features, basis) # rest) output_chunk =
     (case PairwiseConv_forward ops kernel_fn edge_features basis of
        Inl e \<Rightarrow> Inl e
      | Inr kern \<Rightarrow>
          (let chunk = map2 (op_einsum ops) kern x_chunk in
           Conv_chunks ops kernel_fn rest (Some (safe_cat output_chunk chunk))))"

text \<open>
  The body of the loop over the input degrees (lines 213--234). The state is the pair of
  \<open>output\<close> (\<open>None\<close> for the integer 0 it starts as; \<open>0 + t\<close> is \<open>t\<close>) and of \<open>x\<close> (\<open>None\<close>
  while unassigned). Adding \<open>None\<close>, the value of \<open>output_chunk\<close> when there was no chunk,
  raises \<open>TypeError\<close>. The loop variables \<open>edge_features\<close> and \<open>basis\<close> of line 229 shadow
  the outer names; \<open>edge_features\<close> is assigned anew at line 221 in every round and
  \<open>basis\<close> is not read after line 204.
\<close>

definition Conv_input ::
  "('s, 'w) ops \<Rightarrow> 'w Conv \<Rightarrow> 's features \<Rightarrow> 's edge_info \<Rightarrow> 's tensor \<Rightarrow> 's basis list
     \<Rightarrow> nat \<Rightarrow> nat \<Rightarrow> int \<Rightarrow> 's tensor option \<Rightarrow> error + ('s tensor \<times> 's tensor)" where
  "Conv_input ops self inp edge_info rel_dist split_basis degree_out degree_in m_in outp =
     (let splits = Conv_splits self;
          neighbor_indices = fst edge_info;
          edges = snd (snd edge_info)
      in
      case map_of inp degree_in of
        None \<Rightarrow> Inl (KeyError degree_in)
      | Some x0 \<Rightarrow>
          (let x = op_index_select ops x0 neighbor_indices;
               x = map (op_view_in ops (int (to_order degree_in) * m_in)) x
           in
           case map_of (Conv_kernel_unary self) (degree_in, degree_out) of
             None \<Rightarrow> Inl (KernelKeyError degree_in degree_out)
           | Some kernel_fn \<Rightarrow>
               (let edge_features =
                      (case edges of
                         Some e \<Rightarrow> map2 (op_cat_last ops) rel_dist e
                       | None \<Rightarrow> rel_dist);
                    split_x = fast_split x splits;
                    split_edge_features = fast_split edge_features splits
                in
                case Conv_chunks ops kernel_fn
                       (zip split_x (zip split_edge_features split_basis)) None of
                  Inl e \<Rightarrow> Inl e
                | Inr None \<Rightarrow> Inl TypeError
                | Inr (Some output_chunk) \<Rightarrow>
                    Inr (case outp of
                           None \<Rightarrow> output_chunk
                         | Some out \<Rightarrow> op_add ops out output_chunk, x))))"

fun Conv_inputs ::
  "('s, 'w) ops \<Rightarrow> 'w Conv \<Rightarrow> 's features \<Rightarrow> 's edge_info \<Rightarrow> 's tensor \<Rightarrow> 's basis list
     \<Rightarrow> nat \<Rightarrow> (nat \<times> int) list \<Rightarrow> ('s tensor \<times> 's tensor) option
     \<Rightarrow> error + ('s tensor \<times> 's tensor) option" where
  "Conv_inputs ops self inp edge_info rel_dist split_basis degree_out [] st = Inr st"
| "Conv_inputs ops self inp edge_info rel_dist split_basis degree_out ((degree_in, m_in) # rest) st =
     (case Conv_input ops self inp edge_info rel_dist split_basis degree_out degree_in m_in
             (map_option fst st) of
        Inl e \<Rightarrow> Inl e
      | Inr st' \<Rightarrow>
          Conv_inputs ops self inp edge_info rel_dist split_basis degree_out rest (Some st'))"

text \<open>
  The body of the loop over the output degrees (lines 210--242). With an empty input
  fiber \<open>output\<close> is still the integer 0 and \<open>x\<close> is unassigned: pooling raises
  \<open>AttributeError\<close>, and without pooling \<open>x.shape\<close> raises \<open>NameError\<close>.
\<close>

definition Conv_output ::
  "('s, 'w) ops \<Rightarrow> 'w Conv \<Rightarrow> 's features \<Rightarrow> 's edge_info \<Rightarrow> 's tensor \<Rightarrow> 's basis list
     \<Rightarrow> nat \<Rightarrow> error + 's tensor" where
  "Conv_output ops self inp edge_info rel_dist split_basis degree_out =
     (let neighbor_masks = fst (snd edge_info) in
      case Conv_inputs ops self inp edge_info rel_dist split_basis degree_out
             (List.enumerate 0 (Conv_fiber_in self)) None of
        Inl e \<Rightarrow> Inl e
      | Inr None \<Rightarrow> Inl (if Conv_pool self then AttributeError else NameError)
      | Inr (Some (outp, x)) \<Rightarrow>
          (let outp =
                 (if Conv_pool self
                  then (case neighbor_masks of
                          Some m \<Rightarrow> op_masked_mean ops outp m
                        | None \<Rightarrow> op_mean ops outp)
                  else outp)
           in Inr (op_view_out ops (Conv_pool self) (to_order degree_out) x outp)))"

fun Conv_outputs ::
  "('s, 'w) ops \<Rightarrow> 'w Conv \<Rightarrow> 's features \<Rightarrow> 's edge_info \<Rightarrow> 's tensor \<Rightarrow> 's basis list
     \<Rightarrow> (nat \<times> int) list \<Rightarrow> 's features \<Rightarrow> error + 's features" where
  "Conv_outputs ops self inp edge_info rel_dist split_basis [] outputs = Inr outputs"
| "Conv_outputs ops self inp edge_info rel_dist split_basis ((degree_out, m_out) # rest) outputs =
     (case Conv_output ops self inp edge_info rel_dist split_basis degree_out of
        Inl e \<Rightarrow> Inl e
      | Inr outp \<Rightarrow>
          Conv_outputs ops self inp edge_info rel_dist split_basis rest
            (AList.update degree_out outp outputs))"

text \<open>
  \<open>Conv.forward\<close> (lines 187--248). \<open>rearrange(rel_dist, 'b m n -> b m n 1')\<close> acts at each
  node position (\<open>op_unsqueeze\<close>).
\<close>

definition Conv_forward ::
  "('s, 'w) ops \<Rightarrow> 'w Conv \<Rightarrow> 's features \<Rightarrow> 's edge_info \<Rightarrow> 's tensor \<Rightarrow> 's basis
     \<Rightarrow> error + 's features" where
  "Conv_forward ops self inp edge_info rel_dist basis =
     (let splits = Conv_splits self;
          rel_dist = map (op_unsqueeze ops) rel_dist;
          split_basis = Conv_split_basis basis splits
      in
      case Conv_outputs ops self inp edge_info rel_dist split_basis
             (List.enumerate 0 (Conv_fiber_out self)) [] of
        Inl e \<Rightarrow> Inl e
      | Inr outputs \<Rightarrow>
          (if Conv_self_interaction self
           then (case Conv_self_interact self of
                   None \<Rightarrow> Inl AttributeError
                 | Some lin \<Rightarrow>
                     (case Linear_forward ops lin inp of
                        Inl e \<Rightarrow> Inl e
                      | Inr self_interact_out \<Rightarrow> Inr (residual_fn ops outputs self_interact_out)))
           else Inr outputs))"

subsection \<open>The unchunked computation\<close>

text \<open>
  For comparison with the loop over the chunks: the kernel of a pair of degrees applied
  to the whole gathered input at once (\<open>chunk_full\<close>), and the value of \<open>output_chunk\<close>
  that an unchunked computation yields (\<open>chunk_ref\<close>): nothing for an empty node axis
  or an empty basis, an error for a missing basis key.
\<close>

definition chunk_full ::
  "('s, 'w) ops \<Rightarrow> 'w PairwiseConv \<Rightarrow> 's tensor \<Rightarrow> 's tensor \<Rightarrow> 's tensor \<Rightarrow> 's tensor" where
  "chunk_full ops pc x e B =
     map2 (op_einsum ops)
       (map2 (op_contract ops (int (PC_d_out pc) * PC_nc_out pc))
          (map (RadialFunc_forward ops (PC_rp pc)) e) B) x"

definition chunk_ref ::
  "('s, 'w) ops \<Rightarrow> 'w PairwiseConv \<Rightarrow> 's tensor \<Rightarrow> 's tensor \<Rightarrow> 's basis \<Rightarrow> error + 's tensor option" where
  "chunk_ref ops pc x e basis =
     (if x = [] \<or> basis = [] then Inr None
      else case map_of basis (PC_degree_in pc, PC_degree_out pc) of
             None \<Rightarrow> Inl (KernelKeyError (PC_degree_in pc) (PC_degree_out pc))
           | Some B \<Rightarrow> Inr (Some (chunk_full ops pc x e B)))"

section \<open>FeedForward (lines 320--351)\<close>

record 'w FeedForward =
  FF_fiber :: fiber
  FF_prenorm :: "'w Norm"
  FF_project_in :: "'w Linear"
  FF_gate :: Gate
  FF_project_out :: "'w Linear"

text \<open>
  \<open>FeedForward.__init__\<close> (lines 322--343). \<open>project_in_fiber_hidden[0] += dim_gate\<close> raises
  \<open>IndexError\<close> for an empty fiber; the constructor of Gate may raise. The parameters of
  \<open>prenorm\<close>, \<open>project_in\<close> and \<open>project_out\<close> are at the positions \<open>[0]\<close>, \<open>[1]\<close> and \<open>[2]\<close>;
  the default \<open>eps\<close> of Norm is \<open>1e-12\<close>.
\<close>

definition FeedForward_init ::
  "'w init \<Rightarrow> fiber \<Rightarrow> fiber option \<Rightarrow> int \<Rightarrow> error + 'w FeedForward" where
  "FeedForward_init init fiber fiber_out mult =
     (let fiber_hidden = map (\<lambda>dim_d. dim_d * mult) fiber;
          dim_gate = sum_list (drop 1 fiber_hidden)
      in
      case fiber_hidden of
        [] \<Rightarrow> Inl IndexError
      | h0 # hrest \<Rightarrow>
          (let project_in_fiber_hidden = (h0 + dim_gate) # hrest;
               fiber_out = default_val fiber_out fiber
           in
           case Gate_init project_in_fiber_hidden of
             Inl e \<Rightarrow> Inl e
           | Inr gate \<Rightarrow>
               Inr \<lparr> FF_fiber = fiber,
                     FF_prenorm = Norm_init (sub_init init [0]) fiber (1 / 10 ^ 12),
                     FF_project_in = Linear_init (sub_init init [1]) fiber project_in_fiber_hidden,
                     FF_gate = gate,
                     FF_project_out = Linear_init (sub_init init [2]) fiber_hidden fiber_out \<rparr>))"

text \<open>\<open>FeedForward.forward\<close> (lines 345--351).\<close>

definition FeedForward_forward ::
  "('s, 'w) ops \<Rightarrow> 'w FeedForward \<Rightarrow> 's features \<Rightarrow> error + 's features" where
  "FeedForward_forward ops self features =
     (case Norm_forward (op_rmsnorm ops) (FF_prenorm self) features of
        Inl e \<Rightarrow> Inl e
      | Inr outputs \<Rightarrow>
     (case Linear_forward ops (FF_project_in self) outputs of
        Inl e \<Rightarrow> Inl e
      | Inr outputs \<Rightarrow>
     (case Gate_forward ops (FF_gate self) outputs of
        Inl e \<Rightarrow> Inl e
      | Inr outputs \<Rightarrow> Linear_forward ops (FF_project_out self) outputs)))"

section \<open>Attention (lines 355--436)\<close>

record 'w Attention =
  Attn_scale :: "real list"
  Attn_heads :: "int list"
  Attn_prenorm :: "'w Norm"
  Attn_to_q :: "'w Linear"
  Attn_to_v :: "'w Conv"
  Attn_to_k :: "'w Conv"
  Attn_to_out :: "'w Linear"
  Attn_attend_self :: bool
  Attn_to_self_k :: "'w Linear option"
  Attn_to_self_v :: "'w Linear option"

text \<open>
  \<open>Attention.__init__\<close> (lines 357--391). The two assertions carry no message.
  \<open>dim ** -0.5\<close> raises \<open>ZeroDivisionError\<close> for a head dimension 0 (for a negative one
  Python yields a complex number, which the model does not represent). The parameters
  of \<open>prenorm\<close>, \<open>to_q\<close>, \<open>to_v\<close>, \<open>to_k\<close>, \<open>to_out\<close>, \<open>to_self_k\<close> and \<open>to_self_v\<close> are at the
  positions \<open>[0]\<close> to \<open>[6]\<close>.
\<close>

definition Attention_init ::
  "'w init \<Rightarrow> fiber \<Rightarrow> int_or_tuple \<Rightarrow> int_or_tuple \<Rightarrow> bool \<Rightarrow> int option \<Rightarrow> int
     \<Rightarrow> error + 'w Attention" where
  "Attention_init init fiber dim_head heads attend_self edge_dim splits =
     (let num_degrees = int (length fiber);
          dim_head = cast_tuple dim_head num_degrees
      in
      if int (length dim_head) \<noteq> num_degrees then Inl (AssertionError [])
      else
        let heads = cast_tuple heads num_degrees in
        if int (length heads) \<noteq> num_degrees then Inl (AssertionError [])
        else
          let hidden_fiber = map2 (\<lambda>dim_d head. dim_d * head) dim_head heads in
          if 0 \<in> set dim_head then Inl ZeroDivisionError
          else
            let scale = map (\<lambda>dim_d. real_of_int dim_d powr (- 1 / 2)) dim_head in
            case Conv_init (sub_init init [2]) fiber hidden_fiber False False edge_dim splits of
              Inl e \<Rightarrow> Inl e
            | Inr to_v \<Rightarrow>
            (case Conv_init (sub_init init [3]) fiber hidden_fiber False False edge_dim splits of
              Inl e \<Rightarrow> Inl e
            | Inr to_k \<Rightarrow>
                Inr \<lparr> Attn_scale = scale, Attn_heads = heads,
                      Attn_prenorm = Norm_init (sub_init init [0]) fiber (1 / 10 ^ 12),
                      Attn_to_q = Linear_init (sub_init init [1]) fiber hidden_fiber,
                      Attn_to_v = to_v, Attn_to_k = to_k,
                      Attn_to_out = Linear_init (sub_init init [4]) hidden_fiber fiber,
                      Attn_attend_self = attend_self,
                      Attn_to_self_k =
                        (if attend_self
                         then Some (Linear_init (sub_init init [5]) fiber hidden_fiber) else None),
                      Attn_to_self_v =
                        (if attend_self
                         then Some (Linear_init (sub_init init [6]) fiber hidden_fiber) else None) \<rparr>))"

text \<open>
  The loop of \<open>Attention.forward\<close> over \<open>zip(features.keys(), self.heads, self.scale)\<close> (lines
  413--434). The rearrangements, the similarity, the masked softmax and the weighted
  sum of lines 416--434 are the runtime operation \<open>op_attend\<close>; the dictionary lookups
  of lines 414 and 420 raise \<open>KeyError\<close>.
\<close>

fun Attention_loop ::
  "('s, 'w) ops \<Rightarrow> bool \<Rightarrow> (nat \<times> int \<times> real) list \<Rightarrow> 's features \<Rightarrow> 's features \<Rightarrow> 's features
     \<Rightarrow> ('s features \<times> 's features) option \<Rightarrow> 's tensor option \<Rightarrow> 's features
     \<Rightarrow> error + 's features" where
  "Attention_loop ops attend_self [] queries keys vals self_kv neighbor_mask outputs = Inr outputs"
| "Attention_loop ops attend_self ((degree, h, scale) # rest) queries keys vals self_kv
     neighbor_mask outputs =
     (case (map_of queries degree, map_of keys degree, map_of vals degree) of
        (Some q, Some k, Some v) \<Rightarrow>
          (if attend_self
           then (case self_kv of
                   None \<Rightarrow> Inl NameError
                 | Some (self_keys, self_values) \<Rightarrow>
                     (case (map_of self_keys degree, map_of self_values degree) of
                        (Some self_k, Some self_v) \<Rightarrow>
                          Attention_loop ops attend_self rest queries keys vals self_kv neighbor_mask
                            (AList.update degree
                               (op_attend ops h scale q k v (Some (self_k, self_v)) neighbor_mask)
                               outputs)
                      | _ \<Rightarrow> Inl (KeyError degree)))
           else Attention_loop ops attend_self rest queries keys vals self_kv neighbor_mask
                  (AList.update degree (op_attend ops h scale q k v None neighbor_mask) outputs))
      | _ \<Rightarrow> Inl (KeyError degree))"

text \<open>
  \<open>Attention.forward\<close> (lines 394--436). \<open>get_tensor_device_and_dtype\<close> (lines 51--53)
  raises \<open>StopIteration\<close> on an empty feature map. The argument \<open>mask\<close> is overwritten at
  line 429 before it is read.
\<close>

definition Attention_forward ::
  "('s, 'w) ops \<Rightarrow> 'w Attention \<Rightarrow> 's features \<Rightarrow> 's edge_info \<Rightarrow> 's tensor \<Rightarrow> 's basis
     \<Rightarrow> 's tensor option \<Rightarrow> error + 's features" where
  "Attention_forward ops self features edge_info rel_dist basis msk =
     (let attend_self = Attn_attend_self self in
      if features = [] then Inl StopIteration
      else
        let neighbor_mask = map_option (op_mask_rearrange ops) (fst (snd edge_info)) in
        case Norm_forward (op_rmsnorm ops) (Attn_prenorm self) features of
          Inl e \<Rightarrow> Inl e
        | Inr features \<Rightarrow>
        (case Linear_forward ops (Attn_to_q self) features of
          Inl e \<Rightarrow> Inl e
        | Inr queries \<Rightarrow>
        (case Conv_forward ops (Attn_to_k self) features edge_info rel_dist basis of
          Inl e \<Rightarrow> Inl e
        | Inr keys \<Rightarrow>
        (case Conv_forward ops (Attn_to_v self) features edge_info rel_dist basis of
          Inl e \<Rightarrow> Inl e
        | Inr vals \<Rightarrow>
        (case (if attend_self
               then (case (Attn_to_self_k self, Attn_to_self_v self) of
                       (Some to_self_k, Some to_self_v) \<Rightarrow>
                         (case Linear_forward ops to_self_k features of
                            Inl e \<Rightarrow> Inl e
                          | Inr self_keys \<Rightarrow>
                              (case Linear_forward ops to_self_v features of
                                 Inl e \<Rightarrow> Inl e
                               | Inr self_values \<Rightarrow> Inr (Some (self_keys, self_values))))
                     | _ \<Rightarrow> Inl AttributeError)
               else Inr None) of
          Inl e \<Rightarrow> Inl e
        | Inr self_kv \<Rightarrow>
        (case Attention_loop ops attend_self
                (zip (map fst features) (zip (Attn_heads self) (Attn_scale self)))
                queries keys vals self_kv neighbor_mask [] of
          Inl e \<Rightarrow> Inl e
        | Inr outputs \<Rightarrow> Linear_forward ops (Attn_to_out self) outputs))))))"

subsection \<open>The masked softmax of lines 419--432 at one (batch, head, node) position\<close>

text \<open>
  At one batch element, head and node \<open>i\<close>, the query \<open>q\<close> is a vector (its \<open>d\<close> and \<open>m\<close>
  axes flattened), the keys are a list of such vectors along the neighbor axis \<open>j\<close>, and
  the neighbor mask is a list of booleans along \<open>j\<close>.

  \<open>torch.cat((self_k, k), dim = 3)\<close> puts the self key first (\<open>attn_keys\<close>, lines 419--423);
  \<open>einsum('b h i d m, b h i j d m -> b h i j', q, k) * scale\<close> is \<open>attn_sim\<close> (line 425);
  \<open>F.pad(neighbor_mask, (num_left_pad, 0), value = True)\<close> is \<open>pad_left\<close>, which crops for a
  negative pad as \<open>F.pad\<close> does (lines 428--429); \<open>sim.masked_fill(~mask, -torch.finfo(sim.dtype).max)\<close>
  followed by \<open>softmax(dim = -1)\<close> is \<open>attn_weights\<close> (lines 427--432).

  \<open>softmax\<close> is computed as the runtime does: the exponentials of the differences to the
  largest entry, divided by their sum. An exponential of at most \<open>fmt_underflow\<close> is 0
  (\<open>fl_exp\<close>), and so is such a quotient: in \<open>float32\<close> that is the case for a difference
  below \<open>-103.98\<close>, and so for every masked entry next to an entry that is not near
  \<open>-fmt_max\<close>.
\<close>

definition pad_left :: "bool list \<Rightarrow> int \<Rightarrow> bool \<Rightarrow> bool list" where
  "pad_left m num_left_pad v =
     (if 0 \<le> num_left_pad then replicate (nat num_left_pad) v @ m
      else drop (nat (- num_left_pad)) m)"

definition masked_fill :: "real list \<Rightarrow> bool list \<Rightarrow> real \<Rightarrow> real list" where
  "masked_fill t cond v = map2 (\<lambda>x c. if c then v else x) t cond"

definition fl_exp :: "fmt \<Rightarrow> real \<Rightarrow> real" where
  "fl_exp fm x = flush fm (exp x)"

definition softmax :: "fmt \<Rightarrow> real list \<Rightarrow> real list" where
  "softmax fm xs =
     (case xs of
        [] \<Rightarrow> []
      | x # rest \<Rightarrow>
          (let m = fold max rest x;
               es = map (\<lambda>y. fl_exp fm (y - m)) xs
           in map (\<lambda>e. flush fm (e / sum_list es)) es))"

definition dot :: "real list \<Rightarrow> real list \<Rightarrow> real" where
  "dot q k = (\<Sum>(a, b)\<leftarrow>zip q k. a * b)"

definition attn_keys :: "bool \<Rightarrow> real list \<Rightarrow> real list list \<Rightarrow> real list list" where
  "attn_keys attend_self self_k k = (if attend_self then self_k # k else k)"

definition attn_sim :: "real \<Rightarrow> real list \<Rightarrow> real list list \<Rightarrow> real list" where
  "attn_sim scale q k = map (\<lambda>kj. dot q kj * scale) k"

definition attn_mask :: "real list \<Rightarrow> bool list \<Rightarrow> bool list" where
  "attn_mask sim neighbor_mask =
     (let num_left_pad = int (length sim) - int (length neighbor_mask)
      in pad_left neighbor_mask num_left_pad True)"

definition attn_weights :: "fmt \<Rightarrow> real list \<Rightarrow> bool list option \<Rightarrow> real list" where
  "attn_weights fm sim neighbor_mask =
     (case neighbor_mask of
        None \<Rightarrow> softmax fm sim
      | Some nm \<Rightarrow> softmax fm (masked_fill sim (map Not (attn_mask sim nm)) (- fmt_max fm)))"

section \<open>Equiformer (lines 440--685)\<close>

text \<open>
  \<open>num_neighbors\<close> is an integer or \<open>float('inf')\<close>, the default.
\<close>

datatype py_number = Fin int | Infinity

definition py_min :: "py_number \<Rightarrow> int \<Rightarrow> int" where
  "py_min a b = (case a of Fin k \<Rightarrow> min k b | Infinity \<Rightarrow> b)"

text \<open>The keyword arguments of \<open>Equiformer.__init__\<close> (lines 445--462).\<close>

record config =
  c_dim :: int_or_tuple
  c_dim_in :: "int_or_tuple option"
  c_num_degrees :: int
  c_input_degrees :: int
  c_heads :: int_or_tuple
  c_dim_head :: int_or_tuple
  c_depth :: int
  c_valid_radius :: real
  c_num_neighbors :: py_number
  c_reduce_dim_out :: bool
  c_num_tokens :: "int option"
  c_num_positions :: "int option"
  c_num_edge_tokens :: "int option"
  c_edge_dim :: "int option"
  c_attend_self :: bool
  c_differentiable_coors :: bool
  c_splits :: int
  c_linear_out :: bool

datatype 'w proj_out = ProjLinear "'w Linear" | ProjFeedForward "'w FeedForward"

record 'w Equiformer =
  E_dim :: fiber
  E_num_degrees :: nat
  E_dim_in :: fiber
  E_input_degrees :: nat
  E_type0_feat_dim :: int
  E_token_emb :: "'w option"
  E_num_positions :: "int option"
  E_pos_emb :: "'w option"
  E_edge_emb :: "'w option"
  E_has_edges :: bool
  E_differentiable_coors :: bool
  E_valid_radius :: real
  E_num_neighbors :: py_number
  E_conv_in :: "'w Conv"
  E_attend_self :: bool
  E_layers :: "('w Attention \<times> 'w FeedForward) list"
  E_norm :: "'w Norm"
  E_ff_out :: "'w proj_out option"

text \<open>
  One round of the loop of lines 523--527: the attention block and the feed-forward
  block of layer \<open>ind\<close>, with their parameters at the positions \<open>[4, ind, 0]\<close> and
  \<open>[4, ind, 1]\<close>.
\<close>

definition Equiformer_layer_init ::
  "'w init \<Rightarrow> fiber \<Rightarrow> config \<Rightarrow> nat \<Rightarrow> error + ('w Attention \<times> 'w FeedForward)" where
  "Equiformer_layer_init init dim_t cfg ind =
     (case Attention_init (sub_init init [4, ind, 0]) dim_t (c_dim_head cfg) (c_heads cfg)
             (c_attend_self cfg) (c_edge_dim cfg) (c_splits cfg) of
        Inl e \<Rightarrow> Inl e
      | Inr attn \<Rightarrow>
          (case FeedForward_init (sub_init init [4, ind, 1]) dim_t None 4 of
             Inl e \<Rightarrow> Inl e
           | Inr ff \<Rightarrow> Inr (attn, ff)))"

text \<open>
  \<open>Equiformer.__init__\<close> (lines 464--535). The argument \<open>(self.dim[0],)\<close> of \<open>default\<close> at line
  475 is evaluated whether \<open>dim_in\<close> is given or not, and raises \<open>IndexError\<close> for an empty
  \<open>dim\<close>. The embedding tables are at the positions \<open>[0]\<close> (tokens), \<open>[1]\<close> (positions) and
  \<open>[2]\<close> (edges), \<open>conv_in\<close> at \<open>[3]\<close>, the final norm at \<open>[5]\<close> and \<open>ff_out\<close> at \<open>[6]\<close>.
\<close>

definition Equiformer_init :: "'w init \<Rightarrow> config \<Rightarrow> error + 'w Equiformer" where
  "Equiformer_init init cfg =
     (let num_degrees = c_num_degrees cfg;
          input_degrees = c_input_degrees cfg;
          edge_dim = c_edge_dim cfg;
          dim_t = cast_tuple (c_dim cfg) num_degrees
      in
      if int (length dim_t) \<noteq> num_degrees then Inl (AssertionError [])
      else
        case dim_t of
          [] \<Rightarrow> Inl IndexError
        | dim0 # _ \<Rightarrow>
            (let dim_in = default_val (c_dim_in cfg) (TupleVal [dim0]);
                 dim_in = cast_tuple dim_in input_degrees
             in
             if int (length dim_in) \<noteq> input_degrees then Inl (AssertionError [])
             else
               case dim_in of
                 [] \<Rightarrow> Inl IndexError
               | type0_feat_dim # _ \<Rightarrow>
                   if c_num_edge_tokens cfg \<noteq> None \<and> \<not> edge_dim \<noteq> None
                   then Inl (AssertionError ''edge dimension (edge_dim) must be supplied if SE3 transformer is to have edge tokens'')
                   else
                     case Conv_init (sub_init init [3]) dim_in dim_t True True edge_dim (c_splits cfg) of
                       Inl e \<Rightarrow> Inl e
                     | Inr conv_in \<Rightarrow>
                     (case sequence_err
                             (map (Equiformer_layer_init init dim_t cfg) [0..<nat (c_depth cfg)]) of
                       Inl e \<Rightarrow> Inl e
                     | Inr layers \<Rightarrow>
                     (case (if c_reduce_dim_out cfg
                            then (if c_linear_out cfg
                                  then Inr (Some (ProjLinear
                                         (Linear_init (sub_init init [6]) dim_t
                                            (replicate (length dim_t) 1))))
                                  else (case FeedForward_init (sub_init init [6]) dim_t
                                               (Some (replicate (length dim_t) 1)) 4 of
                                          Inl e \<Rightarrow> Inl e
                                        | Inr ff \<Rightarrow> Inr (Some (ProjFeedForward ff))))
                            else Inr None) of
                       Inl e \<Rightarrow> Inl e
                     | Inr ff_out \<Rightarrow>
                         Inr \<lparr> E_dim = dim_t,
                               E_num_degrees = length dim_t,
                               E_dim_in = dim_in,
                               E_input_degrees = length dim_in,
                               E_type0_feat_dim = type0_feat_dim,
                               E_token_emb = map_option (\<lambda>_. init [0]) (c_num_tokens cfg),
                               E_num_positions = c_num_positions cfg,
                               E_pos_emb = map_option (\<lambda>_. init [1]) (c_num_positions cfg),
                               E_edge_emb = map_option (\<lambda>_. init [2]) (c_num_edge_tokens cfg),
                               E_has_edges = (case edge_dim of Some ed \<Rightarrow> ed > 0 | None \<Rightarrow> False),
                               E_differentiable_coors = c_differentiable_coors cfg,
                               E_valid_radius = c_valid_radius cfg,
                               E_num_neighbors = c_num_neighbors cfg,
                               E_conv_in = conv_in,
                               E_attend_self = c_attend_self cfg,
                               E_layers = layers,
                               E_norm = Norm_init (sub_init init [5]) dim_t (1 / 10 ^ 12),
                               E_ff_out = ff_out \<rparr>))))"

subsection \<open>Equiformer.forward: embedding and input checks (lines 548--566)\<close>

text \<open>
  \<open>feats\<close> is a tensor or a degree-indexed dictionary of tensors. The result of this
  stage is the dictionary of input features with the batch size \<open>b\<close> and the number of
  nodes \<open>n\<close> (the extent of the node axis of the degree-0 tensor).
\<close>

datatype 's feats_in = FeatTensor "'s tensor" | FeatDict "'s features"

definition forward_embed ::
  "('s, 'w) ops \<Rightarrow> 'w Equiformer \<Rightarrow> 's feats_in \<Rightarrow> 's tensor option
     \<Rightarrow> error + ('s features \<times> nat \<times> nat)" where
  "forward_embed ops self feats edges =
     (case (case E_token_emb self of
              None \<Rightarrow> Inr feats
            | Some emb \<Rightarrow>
                (case feats of
                   FeatTensor t \<Rightarrow> Inr (FeatTensor (op_embed ops emb t))
                 | FeatDict _ \<Rightarrow> Inl TypeError)) of
        Inl e \<Rightarrow> Inl e
      | Inr feats \<Rightarrow>
     (case (case E_pos_emb self of
              None \<Rightarrow> Inr feats
            | Some emb \<Rightarrow>
                (case feats of
                   FeatDict _ \<Rightarrow> Inl AttributeError
                 | FeatTensor t \<Rightarrow>
                     (case E_num_positions self of
                        None \<Rightarrow> Inl TypeError
                      | Some num_positions \<Rightarrow>
                          if \<not> int (length t) \<le> num_positions
                          then Inl (AssertionError ''feature sequence length must be less than the number of positions given at init'')
                          else Inr (FeatTensor (op_pos_embed ops emb t))))) of
        Inl e \<Rightarrow> Inl e
      | Inr feats \<Rightarrow>
          if E_has_edges self \<and> \<not> edges \<noteq> None
          then Inl (AssertionError ''edge embedding (num_edge_tokens & edge_dim) must be supplied if one were to train on edge types'')
          else
            let feats = (case feats of
                           FeatTensor t \<Rightarrow> [(0, op_unsqueeze_last ops t)]
                         | FeatDict d \<Rightarrow> d)
            in
            case map_of feats 0 of
              None \<Rightarrow> Inl (KeyError 0)
            | Some f0 \<Rightarrow>
                (let b = op_batch ops f0; n = length f0; d = op_channels ops f0 in
                 if d \<noteq> E_type0_feat_dim self
                 then Inl (AssertionError
                            (''feature dimension '' @ str_int d
                               @ '' must be equal to dimension given at init ''
                               @ str_int (E_type0_feat_dim self)))
                 else if set (map fst feats) \<noteq> set [0..<E_input_degrees self]
                 then Inl (AssertionError
                            (''input must have '' @ str_nat (E_input_degrees self) @ '' degree''))
                 else Inr (feats, b, n))))"

subsection \<open>Equiformer.forward: neighbor selection (lines 568--637)\<close>

text \<open>
  The index tensors are computed on nested lists of naturals. \<open>exclude_self_mask\<close> is
  \<open>~torch.eye(n)\<close>; \<open>masked_select\<close> broadcasts the mask of shape \<open>[1, n, n]\<close> over the
  batch and keeps, in row-major order, the entries where the mask holds; \<open>reshape3\<close> is
  \<open>reshape(b, n, m)\<close>, which raises when the number of elements is not \<open>b * n * m\<close>.
  For \<open>n = 0\<close> the reshape of line 581 is \<open>reshape(b, 0, -1)\<close>, which raises.
\<close>

definition exclude_self_mask :: "nat \<Rightarrow> bool list list" where
  "exclude_self_mask n = map (\<lambda>i. map (\<lambda>j. i \<noteq> j) [0..<n]) [0..<n]"

definition masked_select :: "'a list list list \<Rightarrow> bool list list \<Rightarrow> 'a list" where
  "masked_select t m =
     map fst (filter snd (zip (concat (map concat t)) (concat (map (\<lambda>_. concat m) t))))"

definition reshape3 :: "'a list \<Rightarrow> nat \<Rightarrow> nat \<Rightarrow> nat \<Rightarrow> error + 'a list list list" where
  "reshape3 flat b n m =
     (if length flat \<noteq> b * n * m then Inl RuntimeError
      else Inr (map (\<lambda>bi. map (\<lambda>i. narrow flat ((bi * n + i) * m) m) [0..<n]) [0..<b]))"

definition self_excluded_indices :: "nat \<Rightarrow> nat \<Rightarrow> error + index_tensor" where
  "self_excluded_indices b n =
     (let indices = replicate b (replicate n [0..<n]) in
      if n = 0 then Inl RuntimeError
      else reshape3 (masked_select indices (exclude_self_mask n)) b n (n - 1))"

text \<open>
  The candidate neighbors of node \<open>i\<close> among \<open>n\<close> nodes: every node but \<open>i\<close>, in
  ascending order.
\<close>

definition candidate_rows :: "nat \<Rightarrow> nat list list" where
  "candidate_rows n = map (\<lambda>i. filter (\<lambda>j. i \<noteq> j) [0..<n]) [0..<n]"

text \<open>
  Lines 568--637. The pairwise tensors of reals and booleans are computed by the
  runtime: \<open>op_rel_pos\<close> (line 579), \<open>op_remove_self\<close> (the \<open>masked_select\<close> and \<open>reshape\<close>
  of lines 573, 582, 586 and 592), \<open>op_outer\<close> (line 585), \<open>op_norm_last\<close> (line 594),
  \<open>op_mask_distance\<close> (line 610), \<open>op_topk\<close> (line 626, which returns the values and the
  indices), \<open>op_le\<close> (line 627), \<open>op_select_neighbors\<close> (\<open>batched_index_select\<close> with
  \<open>dim = 2\<close> on such a tensor) and \<open>op_and\<close> (line 634). The diagnostic printed at line 608
  has no effect on the result and is left out.

  Two of these steps raise on a tensor without elements. The reshape of line 592,
  \<open>reshape(b, n, n - 1, -1)\<close>, leaves one extent to be inferred: when \<open>b * n * (n - 1)\<close> is 0
  (a single node, or an empty batch) the extent is ambiguous and \<open>reshape\<close> raises
  \<open>RuntimeError\<close>. The reshapes of lines 582 and 586 and of \<open>remove_self\<close> name every
  extent and succeed. \<open>neighbor_mask.sum(dim = -1).max()\<close> of line 606 raises
  \<open>RuntimeError\<close> when the sum has no elements, that is when \<open>b * n\<close> is 0.
\<close>

definition forward_neighbors ::
  "('s, 'w) ops \<Rightarrow> 'w Equiformer \<Rightarrow> nat \<Rightarrow> nat \<Rightarrow> 's tensor \<Rightarrow> 's tensor option
     \<Rightarrow> 's tensor option \<Rightarrow> 's tensor option
     \<Rightarrow> error + ('s edge_info \<times> 's tensor \<times> 's tensor)" where
  "forward_neighbors ops self b n coors msk edges neighbor_mask =
     (case self_excluded_indices b n of
        Inl e \<Rightarrow> Inl e
      | Inr indices \<Rightarrow>
          (let rel_pos = op_remove_self ops (op_rel_pos ops coors);
               msk = map_option (\<lambda>m. op_remove_self ops (op_outer ops m)) msk
           in
           if edges \<noteq> None \<and> b * n * (n - 1) = 0 then Inl RuntimeError
           else
           let edges = map_option
                         (\<lambda>e. op_remove_self ops
                                (case E_edge_emb self of
                                   Some emb \<Rightarrow> op_embed ops emb e
                                 | None \<Rightarrow> e)) edges;
               rel_dist = op_norm_last ops rel_pos
           in
           if neighbor_mask \<noteq> None \<and> b * n = 0 then Inl RuntimeError
           else
           let modified_rel_dist =
                 (case neighbor_mask of
                    Some nm \<Rightarrow> op_mask_distance ops rel_dist (op_remove_self ops nm)
                  | None \<Rightarrow> rel_dist);
               neighbors = E_num_neighbors self;
               valid_radius = (if neighbors = Fin 0 then 0 else E_valid_radius self);
               neighbors = py_min neighbors (int n - 1);
               total_neighbors = neighbors
           in
           if \<not> total_neighbors > 0
           then Inl (AssertionError ''you must be fetching at least 1 neighbor'')
           else
             let total_neighbors = min total_neighbors (int n - 1);
                 topk = op_topk ops modified_rel_dist total_neighbors;
                 dist_values = fst topk;
                 nearest_indices = snd topk;
                 neighbor_mask = op_le ops dist_values valid_radius;
                 neighbor_rel_dist = op_select_neighbors ops rel_dist nearest_indices;
                 neighbor_rel_pos = op_select_neighbors ops rel_pos nearest_indices
             in
             case batched_index_select2 indices nearest_indices of
               Inl e \<Rightarrow> Inl e
             | Inr neighbor_indices \<Rightarrow>
                 (let neighbor_mask =
                        (case msk of
                           Some m \<Rightarrow>
                             op_and ops neighbor_mask (op_select_neighbors ops m nearest_indices)
                         | None \<Rightarrow> neighbor_mask);
                      edges = map_option (\<lambda>e. op_select_neighbors ops e nearest_indices) edges
                  in Inr ((neighbor_indices, Some neighbor_mask, edges),
                          neighbor_rel_dist, neighbor_rel_pos))))"

subsection \<open>Equiformer.forward: the network (lines 639--685)\<close>

record 's Return =
  type0 :: "'s tensor"
  type1 :: "'s tensor"

text \<open>The loop over the layers (lines 661--663).\<close>

fun Equiformer_layers ::
  "('s, 'w) ops \<Rightarrow> ('w Attention \<times> 'w FeedForward) list \<Rightarrow> 's features \<Rightarrow> 's edge_info
     \<Rightarrow> 's tensor \<Rightarrow> 's basis \<Rightarrow> 's tensor option \<Rightarrow> error + 's features" where
  "Equiformer_layers ops [] x edge_info rel_dist basis msk = Inr x"
| "Equiformer_layers ops ((attn, ff) # rest) x edge_info rel_dist basis msk =
     (case Attention_forward ops attn x edge_info rel_dist basis msk of
        Inl e \<Rightarrow> Inl e
      | Inr a \<Rightarrow>
          (let x = residual_fn ops a x in
           case FeedForward_forward ops ff x of
             Inl e \<Rightarrow> Inl e
           | Inr f \<Rightarrow>
               Equiformer_layers ops rest (residual_fn ops f x) edge_info rel_dist basis msk))"

definition proj_out_forward ::
  "('s, 'w) ops \<Rightarrow> 'w proj_out \<Rightarrow> 's features \<Rightarrow> error + 's features" where
  "proj_out_forward ops p x =
     (case p of
        ProjLinear lin \<Rightarrow> Linear_forward ops lin x
      | ProjFeedForward ff \<Rightarrow> FeedForward_forward ops ff x)"

text \<open>
  Lines 639--677: the basis, the input convolution, the layers, the final norm, the
  optional reduction and the optional pooling. The result is the final feature map \<open>x\<close>.
\<close>

definition forward_features ::
  "('s, 'w) ops \<Rightarrow> 'w Equiformer \<Rightarrow> 's features \<Rightarrow> 's edge_info \<Rightarrow> 's tensor \<Rightarrow> 's tensor
     \<Rightarrow> 's tensor option \<Rightarrow> bool \<Rightarrow> error + 's features" where
  "forward_features ops self feats edge_info neighbor_rel_dist neighbor_rel_pos mask0 return_pooled =
     (let basis = op_get_basis ops neighbor_rel_pos (int (E_num_degrees self) - 1)
                    (E_differentiable_coors self)
      in
      case Conv_forward ops (E_conv_in self) feats edge_info neighbor_rel_dist basis of
        Inl e \<Rightarrow> Inl e
      | Inr x \<Rightarrow>
      (case Equiformer_layers ops (E_layers self) x edge_info neighbor_rel_dist basis mask0 of
        Inl e \<Rightarrow> Inl e
      | Inr x \<Rightarrow>
      (case Norm_forward (op_rmsnorm ops) (E_norm self) x of
        Inl e \<Rightarrow> Inl e
      | Inr x \<Rightarrow>
      (case (case E_ff_out self of
               None \<Rightarrow> Inr x
             | Some ff_out \<Rightarrow>
                 (case proj_out_forward ops ff_out x of
                    Inl e \<Rightarrow> Inl e
                  | Inr x \<Rightarrow> Inr (map (\<lambda>(k, v). (k, op_squeeze_channel ops v)) x))) of
        Inl e \<Rightarrow> Inl e
      | Inr x \<Rightarrow>
          Inr (if return_pooled
               then map (\<lambda>(k, v). (k, op_pool_nodes ops v mask0)) x
               else x)))))"

text \<open>
  The return stage (lines 679--685): \<open>x[0]\<close> and \<open>x[1]\<close> at line 681 raise \<open>KeyError\<close> for a
  missing degree.
\<close>

definition forward_return :: "('s, 'w) ops \<Rightarrow> 's features \<Rightarrow> error + 's Return" where
  "forward_return ops x =
     (case map_of x 0 of
        None \<Rightarrow> Inl (KeyError 0)
      | Some t0 \<Rightarrow>
          (case map_of x 1 of
             None \<Rightarrow> Inl (KeyError 1)
           | Some t1 \<Rightarrow> Inr \<lparr> type0 = op_squeeze_order ops t0, type1 = t1 \<rparr>))"

text \<open>
  \<open>Equiformer.forward\<close> (lines 537--685), with all the arguments of its signature.
\<close>

definition Equiformer_forward ::
  "('s, 'w) ops \<Rightarrow> 'w Equiformer \<Rightarrow> 's feats_in \<Rightarrow> 's tensor \<Rightarrow> 's tensor option
     \<Rightarrow> 's tensor option \<Rightarrow> 's tensor option \<Rightarrow> int option \<Rightarrow> bool \<Rightarrow> 's tensor option
     \<Rightarrow> error + 's Return" where
  "Equiformer_forward ops self feats coors msk adj_mat edges return_type return_pooled
     neighbor_mask =
     (let mask0 = msk in
      case forward_embed ops self feats edges of
        Inl e \<Rightarrow> Inl e
      | Inr (feats, b, n) \<Rightarrow>
          (case forward_neighbors ops self b n coors msk edges neighbor_mask of
             Inl e \<Rightarrow> Inl e
           | Inr (edge_info, neighbor_rel_dist, neighbor_rel_pos) \<Rightarrow>
               (case forward_features ops self feats edge_info neighbor_rel_dist
                       neighbor_rel_pos mask0 return_pooled of
                  Inl e \<Rightarrow> Inl e
                | Inr x \<Rightarrow> forward_return ops x)))"

subsection \<open>What the constructor fixes\<close>

text \<open>
  The part of the structure of a constructed model that decides which degrees its
  feature maps hold: for the tuple \<open>dim\<close> of hidden dimensions, the output fiber of the
  input convolution, the final norm, the feed-forward block of every layer and the
  optional output projection are all built over \<open>dim\<close>.
\<close>

definition constructed_with :: "'w Equiformer \<Rightarrow> fiber \<Rightarrow> bool" where
  "constructed_with self dim_t \<longleftrightarrow>
     E_num_degrees self = length dim_t
   \<and> Conv_fiber_out (E_conv_in self) = dim_t
   \<and> (\<exists>init. E_norm self = Norm_init init dim_t (1 / 10 ^ 12))
   \<and> list_all (\<lambda>(attn, ff). \<exists>init. FeedForward_init init dim_t None 4 = Inr ff) (E_layers self)
   \<and> (case E_ff_out self of
         None \<Rightarrow> True
       | Some (ProjLinear lin) \<Rightarrow>
           (\<exists>init. lin = Linear_init init dim_t (replicate (length dim_t) 1))
       | Some (ProjFeedForward ff) \<Rightarrow>
           (\<exists>init. FeedForward_init init dim_t (Some (replicate (length dim_t) 1)) 4 = Inr ff))"

section \<open>A small concrete runtime and model\<close>

text \<open>
  The theorems below hold for every runtime. To instantiate them at concrete inputs,
  \<open>toy_ops\<close> is a runtime whose slices are integers (one number per node) and whose
  parameters are integers: the radial network and the linear maps multiply by their
  parameter, the kernel is the product of the radial value and the basis value and is
  applied by multiplication, the shape operations are identities, and \<open>top-k\<close> returns, for
  one batch element and every node, the first \<open>k\<close> candidate positions.
\<close>

definition toy_ops :: "(int, int) ops" where
  "toy_ops =
     \<lparr> op_linear = (\<lambda>t w. map (\<lambda>x. x * w) t),
       op_rmsnorm = (\<lambda>eps w t. Inr t),
       op_add = (\<lambda>a b. map2 (+) a b),
       op_split = (\<lambda>t sizes. map (\<lambda>_. t) sizes),
       op_silu = (\<lambda>t. t),
       op_sigmoid_mul = (\<lambda>t g. t),
       op_unsqueeze = (\<lambda>x. x),
       op_index_select = (\<lambda>t idx. t),
       op_view_in = (\<lambda>k x. x),
       op_cat_last = (\<lambda>a b. a + b),
       op_radial = (\<lambda>w d_in d_out x. w * x),
       op_contract = (\<lambda>k r b. r * b),
       op_einsum = (\<lambda>k x. k * x),
       op_masked_mean = (\<lambda>t m. t),
       op_mean = (\<lambda>t. t),
       op_view_out = (\<lambda>pool order x outp. outp),
       op_mask_rearrange = (\<lambda>t. t),
       op_attend = (\<lambda>h scale q k v self_kv neighbor_mask. v),
       op_embed = (\<lambda>w t. t),
       op_pos_embed = (\<lambda>w t. t),
       op_unsqueeze_last = (\<lambda>t. t),
       op_batch = (\<lambda>t. 1),
       op_channels = (\<lambda>t. 1),
       op_rel_pos = (\<lambda>t. t),
       op_remove_self = (\<lambda>t. t),
       op_outer = (\<lambda>t. t),
       op_norm_last = (\<lambda>t. t),
       op_mask_distance = (\<lambda>t m. t),
       op_topk = (\<lambda>t k. (t, [map (\<lambda>_. [0..<nat k]) t])),
       op_le = (\<lambda>t r. t),
       op_select_neighbors = (\<lambda>t idx. t),
       op_and = (\<lambda>a b. a),
       op_get_basis = (\<lambda>t max_degree differentiable_coors.
          map (\<lambda>key. (key, t))
            (List.product [0..<nat (max_degree + 1)] [0..<nat (max_degree + 1)])),
       op_squeeze_channel = (\<lambda>t. t),
       op_pool_nodes = (\<lambda>t m. t),
       op_squeeze_order = (\<lambda>t. t) \<rparr>"

text \<open>Every parameter of the toy models is 2.\<close>

definition toy_init :: "int init" where
  "toy_init = (\<lambda>path. 2)"

text \<open>
  The configuration of \<open>Equiformer.__init__\<close> with the defaults of lines 445--462, for
  hidden dimension \<open>dim\<close>, a number of degrees and a number of neighbors.
\<close>

definition toy_config :: "int \<Rightarrow> int \<Rightarrow> py_number \<Rightarrow> int \<Rightarrow> config" where
  "toy_config dim_t num_degrees num_neighbors depth =
     \<lparr> c_dim = IntVal dim_t, c_dim_in = None, c_num_degrees = num_degrees,
       c_input_degrees = 1, c_heads = IntVal 8, c_dim_head = IntVal 24, c_depth = depth,
       c_valid_radius = 100000, c_num_neighbors = num_neighbors, c_reduce_dim_out = False,
       c_num_tokens = None, c_num_positions = None, c_num_edge_tokens = None,
       c_edge_dim = None, c_attend_self = True, c_differentiable_coors = False,
       c_splits = 4, c_linear_out = True \<rparr>"

text \<open>
  The convolution \<open>Conv((1,), (1,))\<close> with the defaults of lines 163--166.
\<close>

definition toy_conv :: "int Conv" where
  "toy_conv = \<lparr> Conv_fiber_in = [1], Conv_fiber_out = [1],
       Conv_edge_dim = None, Conv_self_interaction = True,
       Conv_kernel_unary = [((0, 0), PairwiseConv_init toy_init 0 1 0 1 None)],
       Conv_splits = 4, Conv_pool = True,
       Conv_self_interact = Some (Linear_init toy_init [1] [1]) \<rparr>"

text \<open>
  The model that \<open>Equiformer.__init__\<close> constructs from the toy configuration with
  \<open>dim = 1\<close>.
\<close>

definition toy_model :: "int \<Rightarrow> py_number \<Rightarrow> int \<Rightarrow> int Equiformer" where
  "toy_model num_degrees num_neighbors depth =
     projr (Equiformer_init toy_init (toy_config 1 num_degrees num_neighbors depth))"

section \<open>Properties of the fiber functions\<close>

lemma filter_less_upt: "filter (\<lambda>d. d < m) [0..<n] = [0..<min n m]"
  by (induction n) (auto simp: min_def not_less_eq_eq dest: le_antisym)

lemma fiber_and_loop_enumerate:
  "fiber_and_loop (List.enumerate n xs) fiber_out out =
     out @ map (\<lambda>d. (d, xs ! (d - n), fiber_out ! d))
             (filter (\<lambda>d. d < length fiber_out) [n..<n + length xs])"
proof (induction xs arbitrary: n out)
  case Nil
  then show ?case by simp
next
  case (Cons x xs)
  have up: "[n..<n + length (x # xs)] = n # [Suc n..<Suc n + length xs]"
    by (subst upt_rec) simp
  have shift: "map (\<lambda>d. (d, (x # xs) ! (d - n), fiber_out ! d))
                 (filter (\<lambda>d. d < length fiber_out) [Suc n..<Suc n + length xs])
             = map (\<lambda>d. (d, xs ! (d - Suc n), fiber_out ! d))
                 (filter (\<lambda>d. d < length fiber_out) [Suc n..<Suc n + length xs])"
  proof (rule map_cong [OF refl])
    fix d assume "d \<in> set (filter (\<lambda>d. d < length fiber_out) [Suc n..<Suc n + length xs])"
    then have "Suc n \<le> d" by (simp del: upt_Suc)
    then have "d - n = Suc (d - Suc n)" by arith
    then show "(d, (x # xs) ! (d - n), fiber_out ! d) = (d, xs ! (d - Suc n), fiber_out ! d)"
      by simp
  qed
  show ?case
    unfolding up using shift
    by (simp add: Cons.IH del: upt_Suc)
qed

lemma fiber_and_degrees:
  "map fst (fiber_and fiber_in fiber_out) = [0..<min (length fiber_in) (length fiber_out)]"
proof -
  have "map fst (fiber_and fiber_in fiber_out)
          = filter (\<lambda>d. d < length fiber_out) [0..<length fiber_in]"
    using fiber_and_loop_enumerate [of 0 fiber_in fiber_out "[]"]
    by (simp add: fiber_and_def comp_def)
  then show ?thesis
    by (simp only: filter_less_upt)
qed

text \<open>
  C7. \<open>fiber_and\<close> returns exactly the triples \<open>(degree, fiber_in[degree],
  fiber_out[degree])\<close> of the degrees present in both fibers (the degrees below both
  lengths), in ascending degree order; a degree present in one fiber only yields no
  triple, and no input raises (the result is a list, never an error).
\<close>

theorem fiber_and_common_degrees:
  "fiber_and fiber_in fiber_out =
     map (\<lambda>d. (d, fiber_in ! d, fiber_out ! d))
       [0..<min (length fiber_in) (length fiber_out)]"
proof -
  have "fiber_and fiber_in fiber_out =
          map (\<lambda>d. (d, fiber_in ! d, fiber_out ! d))
            (filter (\<lambda>d. d < length fiber_out) [0..<length fiber_in])"
    using fiber_and_loop_enumerate [of 0 fiber_in fiber_out "[]"]
    by (simp add: fiber_and_def)
  then show ?thesis
    by (simp only: filter_less_upt)
qed

lemma fiber_and_example: "fiber_and [3, 4, 5] [7, 8] = [(0, 3, 7), (1, 4, 8)]"
  by code_simp

section \<open>Properties of the floating-point range\<close>

lemma flush_zero: "0 \<le> fmt_underflow fm \<Longrightarrow> flush fm 0 = 0"
  by (simp add: flush_def)


lemma flush_nonneg: "0 \<le> v \<Longrightarrow> 0 \<le> flush fm v"
  by (simp add: flush_def)

lemma flush_le: "0 \<le> v \<Longrightarrow> flush fm v \<le> v"
  by (simp add: flush_def)

lemma float32_underflow: "fmt_underflow float32 = 1 / 2 ^ 150"
  by (simp add: float32_def)

lemma float32_ok: "fmt_ok float32"
  by (simp add: fmt_ok_def float32_def)

lemma flush_float32_zero: "flush float32 0 = 0"
  by (simp add: flush_def float32_def)

lemma flush_float32_one: "flush float32 1 = 1"
  by (simp add: flush_def float32_def)

lemma float32_max: "fmt_max float32 = 340282346638528859811704183484516925440"
  by (simp add: float32_def)

text \<open>
  \<open>exp(-200)\<close> is below \<open>2 ** -150\<close>: it rounds to 0 in \<open>float32\<close>.
\<close>

lemma exp_minus_200: "exp (- 200 :: real) \<le> 1 / 2 ^ 150"
proof -
  have "(2::real) \<le> exp 1" using exp_ge_add_one_self [of "1::real"] by simp
  then have "(2::real) ^ 200 \<le> exp 1 ^ 200" by (intro power_mono) simp_all
  also have "exp (1::real) ^ 200 = exp 200"
    using exp_of_nat_mult [of 200 "1::real"] by simp
  finally have a: "(2::real) ^ 200 \<le> exp 200" .
  have "(2::real) ^ 150 \<le> 2 ^ 200" by (intro power_increasing) simp_all
  with a have b: "(2::real) ^ 150 \<le> exp 200" by linarith
  have "exp (- 200 :: real) = 1 / exp 200" by (simp add: exp_minus inverse_eq_divide)
  also have "\<dots> \<le> 1 / 2 ^ 150" using b by (intro divide_left_mono) simp_all
  finally show ?thesis .
qed

section \<open>Properties of the Gate constructor\<close>

text \<open>
  C4. For a fiber with \<open>fiber[0] <= sum(fiber[1:])\<close> the constructor of Gate raises the
  assertion error of line 134, so no Gate exists on which forward could be called; for
  a fiber with \<open>fiber[0] > sum(fiber[1:])\<close> the constructor returns a Gate.
\<close>

theorem Gate_init_precondition:
  assumes "fiber \<noteq> []"
  shows "(fiber ! 0 \<le> sum_list (drop 1 fiber) \<longrightarrow>
            Gate_init fiber = Inl (AssertionError Gate_assert_msg))
       \<and> (fiber ! 0 > sum_list (drop 1 fiber) \<longrightarrow>
            Gate_init fiber =
              Inr \<lparr> Gate_fiber = fiber, Gate_num_degrees = length fiber,
                    type0_dim_split = drop 1 fiber @ [fiber ! 0 - sum_list (drop 1 fiber)] \<rparr>)"
  using assms by (cases fiber) (auto simp: Gate_init_def Let_def)

theorem Gate_init_precondition_witness:
  "Gate_init [2, 1, 1] = Inl (AssertionError Gate_assert_msg)
   \<and> Gate_init [3, 1, 1] =
       Inr \<lparr> Gate_fiber = [3, 1, 1], Gate_num_degrees = 3, type0_dim_split = [1, 1, 1] \<rparr>"
  using Gate_init_precondition [of "[2, 1, 1]"] Gate_init_precondition [of "[3, 1, 1]"]
  by simp

section \<open>Properties of Norm\<close>

lemma sum_squares_scale: "(\<Sum>x\<leftarrow>v. (c * x)\<^sup>2) = c\<^sup>2 * (\<Sum>x\<leftarrow>v. (x::real)\<^sup>2)"
  by (induction v) (simp_all add: power_mult_distrib distrib_left)

lemma sum_squares_nonneg: "0 \<le> (\<Sum>x\<leftarrow>v. (x::real)\<^sup>2)"
  by (rule sum_list_nonneg) auto

lemma total_squares_nonneg: "0 \<le> (\<Sum>row\<leftarrow>mat. \<Sum>x\<leftarrow>row. (x::real)\<^sup>2)"
  by (rule sum_list_nonneg) (auto simp: sum_squares_nonneg)

lemma row_squares_le_total:
  "row \<in> set mat \<Longrightarrow> (\<Sum>x\<leftarrow>row. (x::real)\<^sup>2) \<le> (\<Sum>row\<leftarrow>mat. \<Sum>x\<leftarrow>row. x\<^sup>2)"
proof (induction mat)
  case Nil
  then show ?case by simp
next
  case (Cons r mat)
  have a: "0 \<le> (\<Sum>x\<leftarrow>r. x\<^sup>2)" by (rule sum_squares_nonneg)
  have b: "0 \<le> (\<Sum>row\<leftarrow>mat. \<Sum>x\<leftarrow>row. x\<^sup>2)" by (rule total_squares_nonneg)
  show ?case
  proof (cases "row = r")
    case True
    then show ?thesis using b by simp
  next
    case False
    then have "row \<in> set mat" using Cons.prems by simp
    then show ?thesis using Cons.IH a by simp
  qed
qed

lemma sum_flush_squares:
  assumes "0 \<le> fmt_underflow fm" and "list_all (\<lambda>x. x = 0 \<or> fmt_underflow fm < x\<^sup>2) v"
  shows "(\<Sum>x\<leftarrow>v. flush fm (x\<^sup>2)) = (\<Sum>x\<leftarrow>v. x\<^sup>2)"
  using assms(2)
proof (induction v)
  case Nil
  then show ?case by simp
next
  case (Cons a v)
  then have "flush fm (a\<^sup>2) = a\<^sup>2"
    using assms(1) by (auto simp: flush_def)
  then show ?case using Cons by simp
qed

lemma row_squares_zero_or_above:
  assumes "list_all (\<lambda>x. x = 0 \<or> fmt_underflow fm < x\<^sup>2) v"
  shows "(\<Sum>x\<leftarrow>v. x\<^sup>2) = 0 \<or> fmt_underflow fm < (\<Sum>x\<leftarrow>v. x\<^sup>2)"
  using assms
proof (induction v)
  case Nil
  then show ?case by simp
next
  case (Cons a v)
  have r: "0 \<le> (\<Sum>x\<leftarrow>v. x\<^sup>2)" by (rule sum_squares_nonneg)
  have s: "0 \<le> a\<^sup>2" by simp
  from Cons.prems have a: "a = 0 \<or> fmt_underflow fm < a\<^sup>2"
    and v: "list_all (\<lambda>x. x = 0 \<or> fmt_underflow fm < x\<^sup>2) v" by simp_all
  from Cons.IH [OF v] have ih: "(\<Sum>x\<leftarrow>v. x\<^sup>2) = 0 \<or> fmt_underflow fm < (\<Sum>x\<leftarrow>v. x\<^sup>2)" .
  from a show ?case
  proof
    assume "a = 0"
    then show ?thesis using ih by simp
  next
    assume "fmt_underflow fm < a\<^sup>2"
    then have "fmt_underflow fm < a\<^sup>2 + (\<Sum>x\<leftarrow>v. x\<^sup>2)" using r by linarith
    then show ?thesis by simp
  qed
qed

lemma in_range_row:
  assumes "fmt_ok fm" and "in_range fm mat" and "row \<in> set mat"
  shows "list_all (\<lambda>x. x = 0 \<or> fmt_underflow fm < x\<^sup>2) row"
proof -
  have "x = 0 \<or> fmt_underflow fm < x\<^sup>2" if "x \<in> set row" for x
  proof -
    from assms(2,3) that have "x = 0 \<or> fmt_tiny fm \<le> x\<^sup>2"
      by (auto simp: in_range_def list_all_iff)
    moreover have "fmt_underflow fm < fmt_tiny fm" using assms(1) by (simp add: fmt_ok_def)
    ultimately show ?thesis by linarith
  qed
  then show ?thesis by (simp add: list_all_iff)
qed

lemma fmt_ok_underflow: "fmt_ok fm \<Longrightarrow> 0 \<le> fmt_underflow fm"
  by (simp add: fmt_ok_def)

lemma l2norm_in_range:
  assumes "fmt_ok fm" and "in_range fm mat" and "row \<in> set mat"
  shows "l2norm fm row = Some (sqrt (\<Sum>x\<leftarrow>row. x\<^sup>2))"
proof -
  note r = in_range_row [OF assms]
  have "(\<Sum>x\<leftarrow>row. x\<^sup>2) \<le> fmt_max fm"
    using row_squares_le_total [OF assms(3)] assms(2) by (simp add: in_range_def)
  then show ?thesis
    by (simp add: l2norm_def sum_flush_squares [OF fmt_ok_underflow [OF assms(1)] r] overflow_def)
qed

lemma those_map_Some: "those (map (\<lambda>x. Some (f x)) xs) = Some (map f xs)"
  by (induction xs) simp_all

lemma rms_of_in_range:
  assumes "fmt_ok fm" and "in_range fm mat"
  shows "rms_of fm mat = Some (rms_exact mat)"
proof -
  have "map (l2norm fm) mat = map (\<lambda>row. Some (sqrt (\<Sum>x\<leftarrow>row. x\<^sup>2))) mat"
    by (rule map_cong [OF refl]) (simp add: l2norm_in_range [OF assms])
  then have t: "those (map (l2norm fm) mat) = Some (map (\<lambda>row. sqrt (\<Sum>x\<leftarrow>row. x\<^sup>2)) mat)"
    by (simp only: those_map_Some)
  have "map (\<lambda>y. flush fm (y\<^sup>2)) (map (\<lambda>row. sqrt (\<Sum>x\<leftarrow>row. x\<^sup>2)) mat)
      = map (\<lambda>row. \<Sum>x\<leftarrow>row. x\<^sup>2) mat"
    unfolding map_map
  proof (rule map_cong [OF refl])
    fix row assume row: "row \<in> set mat"
    note r = in_range_row [OF assms row]
    have sq: "(sqrt (\<Sum>x\<leftarrow>row. x\<^sup>2))\<^sup>2 = (\<Sum>x\<leftarrow>row. x\<^sup>2)"
      using sum_squares_nonneg [of row] by simp
    from row_squares_zero_or_above [OF r] have "flush fm (\<Sum>x\<leftarrow>row. x\<^sup>2) = (\<Sum>x\<leftarrow>row. x\<^sup>2)"
      using fmt_ok_underflow [OF assms(1)] by (auto simp: flush_def)
    then show "((\<lambda>y. flush fm (y\<^sup>2)) \<circ> (\<lambda>row. sqrt (\<Sum>x\<leftarrow>row. x\<^sup>2))) row = (\<Sum>x\<leftarrow>row. x\<^sup>2)"
      by (simp only: comp_def sq)
  qed
  then have s: "(\<Sum>y\<leftarrow>map (\<lambda>row. sqrt (\<Sum>x\<leftarrow>row. x\<^sup>2)) mat. flush fm (y\<^sup>2))
      = (\<Sum>row\<leftarrow>mat. \<Sum>x\<leftarrow>row. x\<^sup>2)"
    by (simp only:)
  have le: "(\<Sum>row\<leftarrow>mat. \<Sum>x\<leftarrow>row. x\<^sup>2) \<le> fmt_max fm"
    using assms(2) by (simp add: in_range_def)
  show ?thesis
    unfolding rms_of_def t option.case s using le
    by (simp add: overflow_def rms_exact_def)
qed

lemma rms_exact_scale:
  assumes "0 \<le> c"
  shows "rms_exact (map (map ((*) c)) mat) = c * rms_exact mat"
proof -
  have "(\<Sum>row\<leftarrow>map (map ((*) c)) mat. \<Sum>x\<leftarrow>row. x\<^sup>2) = (\<Sum>row\<leftarrow>mat. c\<^sup>2 * (\<Sum>x\<leftarrow>row. x\<^sup>2))"
    by (simp add: comp_def sum_squares_scale)
  also have "\<dots> = c\<^sup>2 * (\<Sum>row\<leftarrow>mat. \<Sum>x\<leftarrow>row. x\<^sup>2)"
    by (simp add: sum_list_const_mult)
  finally show ?thesis
    using assms by (simp add: rms_exact_def real_sqrt_mult)
qed

lemma rms_exact_zero:
  assumes "mat \<noteq> []" and "rms_exact mat = 0"
  shows "map (map ((*) c)) mat = mat"
proof -
  have "0 < real (length mat)" using assms(1) by simp
  then have "real (length mat) powr (- 1 / 2) \<noteq> 0" by simp
  then have "sqrt (\<Sum>row\<leftarrow>mat. \<Sum>x\<leftarrow>row. x\<^sup>2) = 0"
    using assms(2) by (simp add: rms_exact_def)
  then have z: "(\<Sum>row\<leftarrow>mat. \<Sum>x\<leftarrow>row. x\<^sup>2) = 0" by simp
  have rows: "\<forall>row\<in>set mat. (\<Sum>x\<leftarrow>row. x\<^sup>2) = 0"
  proof
    fix row assume "row \<in> set mat"
    from row_squares_le_total [OF this] z have "(\<Sum>x\<leftarrow>row. x\<^sup>2) \<le> 0" by simp
    then show "(\<Sum>x\<leftarrow>row. x\<^sup>2) = 0" using sum_squares_nonneg [of row] by linarith
  qed
  have entries: "x = 0" if "row \<in> set mat" "x \<in> set row" for row x
  proof -
    from rows that(1) have s: "(\<Sum>x\<leftarrow>row. x\<^sup>2) = 0" by blast
    have "x\<^sup>2 \<le> (\<Sum>x\<leftarrow>row. x\<^sup>2)"
      using that(2)
    proof (induction row)
      case Nil
      then show ?case by simp
    next
      case (Cons a row)
      have r: "0 \<le> (\<Sum>x\<leftarrow>row. x\<^sup>2)" by (rule sum_squares_nonneg)
      have a: "0 \<le> a\<^sup>2" by simp
      show ?case
      proof (cases "x = a")
        case True
        then show ?thesis using r by simp
      next
        case False
        then have "x\<^sup>2 \<le> (\<Sum>x\<leftarrow>row. x\<^sup>2)" using Cons by simp
        then have "x\<^sup>2 \<le> a\<^sup>2 + (\<Sum>x\<leftarrow>row. x\<^sup>2)" using a by linarith
        then show ?thesis by simp
      qed
    qed
    with s have "x\<^sup>2 \<le> 0" by simp
    then show ?thesis by simp
  qed
  have "map (map ((*) c)) mat = map (\<lambda>row. row) mat"
  proof (rule map_cong [OF refl])
    fix row assume row: "row \<in> set mat"
    have "map ((*) c) row = map (\<lambda>x. x) row"
      by (rule map_cong [OF refl]) (use entries [OF row] in simp)
    then show "map ((*) c) row = row" by simp
  qed
  then show ?thesis by simp
qed

lemma Norm_matrix_scale:
  assumes "0 < c" and "fmt_ok fm"
    and "in_range fm mat" and "in_range fm (map (map ((*) c)) mat)"
    and "rms_exact mat = 0 \<or> (eps \<le> rms_exact mat \<and> eps \<le> c * rms_exact mat)"
  shows "Norm_matrix fm eps scale (map (map ((*) c)) mat) = Norm_matrix fm eps scale mat"
proof (cases "mat = []")
  case True
  then show ?thesis by (simp add: Norm_matrix_def)
next
  case False
  show ?thesis
  proof (cases "rms_exact mat = 0")
    case True
    then show ?thesis by (simp only: rms_exact_zero [OF False True])
  next
    case nz: False
    from nz assms(5) have e1: "eps \<le> rms_exact mat" and e2: "eps \<le> c * rms_exact mat"
      by blast+
    have r1: "rms_of fm mat = Some (rms_exact mat)"
      by (rule rms_of_in_range [OF assms(2,3)])
    have r2: "rms_of fm (map (map ((*) c)) mat) = Some (c * rms_exact mat)"
      using rms_of_in_range [OF assms(2,4)] assms(1) by (simp add: rms_exact_scale)
    have m1: "max (c * rms_exact mat) eps = c * rms_exact mat" using e2 by simp
    have m2: "max (rms_exact mat) eps = rms_exact mat" using e1 by simp
    have "map (map (\<lambda>x. x / max (c * rms_exact mat) eps)) (map (map ((*) c)) mat)
        = map (map (\<lambda>x. x / max (rms_exact mat) eps)) mat"
      unfolding m1 m2 using assms(1) by (simp add: comp_def)
    then show ?thesis
      by (simp only: Norm_matrix_def Let_def length_map r1 r2 option.case)
  qed
qed

lemma Norm_tensor_scale:
  assumes "0 < c" and "fmt_ok fm"
    and "\<forall>batch\<in>set t. \<forall>mat\<in>set batch.
           in_range fm mat \<and> in_range fm (map (map ((*) c)) mat)
           \<and> (rms_exact mat = 0 \<or> (eps \<le> rms_exact mat \<and> eps \<le> c * rms_exact mat))"
  shows "Norm_tensor fm eps scale (scale_tensor c t) = Norm_tensor fm eps scale t"
proof -
  have "map (\<lambda>batch. sequence_err (map (Norm_matrix fm eps scale) batch)) (scale_tensor c t)
      = map (\<lambda>batch. sequence_err (map (Norm_matrix fm eps scale) batch)) t"
    unfolding scale_tensor_def map_map
  proof (rule map_cong [OF refl])
    fix batch assume b: "batch \<in> set t"
    have "map (Norm_matrix fm eps scale) (map (map (map ((*) c))) batch)
        = map (Norm_matrix fm eps scale) batch"
      unfolding map_map
    proof (rule map_cong [OF refl])
      fix mat assume "mat \<in> set batch"
      with assms(3) b have "in_range fm mat" "in_range fm (map (map ((*) c)) mat)"
        "rms_exact mat = 0 \<or> (eps \<le> rms_exact mat \<and> eps \<le> c * rms_exact mat)"
        by blast+
      from Norm_matrix_scale [OF assms(1,2) this]
      show "(Norm_matrix fm eps scale \<circ> map (map ((*) c))) mat = Norm_matrix fm eps scale mat"
        by (simp only: comp_def)
    qed
    then have "map (Norm_matrix fm eps scale \<circ> map (map ((*) c))) batch
        = map (Norm_matrix fm eps scale) batch"
      by simp
    then show "((\<lambda>batch. sequence_err (map (Norm_matrix fm eps scale) batch)) \<circ> map (map (map ((*) c)))) batch
        = sequence_err (map (Norm_matrix fm eps scale) batch)"
      by (simp only: comp_def map_map)
  qed
  then show ?thesis by (simp only: Norm_tensor_def)
qed

lemma Norm_loop_update:
  assumes "map_of features d = Some t"
    and "\<And>scale. nrm eps scale t' = nrm eps scale t"
  shows "Norm_loop nrm eps (zip ws (AList.update d t' features)) outp
       = Norm_loop nrm eps (zip ws features) outp"
  using assms(1)
proof (induction features arbitrary: ws outp)
  case Nil
  then show ?case by simp
next
  case (Cons p features)
  obtain k v where p: "p = (k, v)" by (cases p)
  show ?case
  proof (cases ws)
    case Nil
    then show ?thesis by simp
  next
    case (Cons w ws')
    show ?thesis
    proof (cases "k = d")
      case True
      then have "v = t" using Cons.prems p by simp
      then show ?thesis using True p Cons assms(2) by simp
    next
      case False
      then have "map_of features d = Some t" using Cons.prems p by simp
      then show ?thesis using False p Cons Cons.IH by (simp split: sum.splits)
    qed
  qed
qed

lemma rms_exact_single: "rms_exact [[x]] = \<bar>x\<bar>"
  by (simp add: rms_exact_def)

lemma in_range_single:
  "in_range fm [[x]] \<longleftrightarrow> (x = 0 \<or> fmt_tiny fm \<le> x\<^sup>2) \<and> x\<^sup>2 \<le> fmt_max fm"
  by (simp add: in_range_def)

lemma rms_of_float32_single:
  assumes "1 / 2 ^ 126 \<le> x\<^sup>2" and "x\<^sup>2 \<le> 340282346638528859811704183484516925440"
  shows "rms_of float32 [[x]] = Some \<bar>x\<bar>"
proof -
  have "in_range float32 [[x]]"
    using assms by (simp add: in_range_single float32_def)
  then show ?thesis
    using rms_of_in_range [OF float32_ok, of "[[x]]"] by (simp add: rms_exact_single)
qed

lemma rms_of_float32_single_overflow:
  assumes "340282346638528859811704183484516925440 < x\<^sup>2"
  shows "rms_of float32 [[x]] = None"
proof -
  have "\<not> x\<^sup>2 \<le> 1 / 2 ^ 150" using assms by simp
  then show ?thesis
    using assms by (simp add: rms_of_def l2norm_def overflow_def flush_def float32_def)
qed

text \<open>
  C5, as stated, fails where the clamp of line 119 is active. With the default
  \<open>eps = 1e-12\<close>, one channel of scale 1 and the degree-0 tensor \<open>[[[[1e-13]]]]\<close> of
  \<open>float32\<close> numbers, the output is \<open>0.1\<close>; for the same tensor scaled by 2 it is \<open>0.2\<close>.
\<close>

theorem Norm_scale_counterexample:
  "Norm_forward (Norm_tensor float32) \<lparr> Norm_eps = 1 / 10 ^ 12, Norm_transforms = [[1]] \<rparr>
       (AList.update 0 (scale_tensor 2 [[[[1 / 10 ^ 13]]]]) [(0, [[[[1 / 10 ^ 13]]]])])
     = Inr [(0, [[[[1 / 5]]]])]
   \<and> Norm_forward (Norm_tensor float32) \<lparr> Norm_eps = 1 / 10 ^ 12, Norm_transforms = [[1]] \<rparr>
       [(0, [[[[1 / 10 ^ 13]]]])]
     = Inr [(0, [[[[1 / 10]]]])]
   \<and> Norm_forward (Norm_tensor float32) \<lparr> Norm_eps = 1 / 10 ^ 12, Norm_transforms = [[1]] \<rparr>
       (AList.update 0 (scale_tensor 2 [[[[1 / 10 ^ 13]]]]) [(0, [[[[1 / 10 ^ 13]]]])])
     \<noteq> Norm_forward (Norm_tensor float32) \<lparr> Norm_eps = 1 / 10 ^ 12, Norm_transforms = [[1]] \<rparr>
       [(0, [[[[1 / 10 ^ 13]]]])]"
  by (simp add: Norm_forward_def Norm_tensor_def scale_tensor_def Norm_matrix_def mul_scale_def
      rms_of_float32_single power_divide)

text \<open>
  The invariance also fails where a norm overflows: in \<open>float32\<close> the square of \<open>1e20\<close> is
  infinite, so the tensor \<open>[[[[1e19]]]]\<close> is normalised to 1 and the same tensor scaled by
  10 to 0, although the root mean square of both is far above \<open>eps\<close>.
\<close>

lemma Norm_scale_overflow_example:
  "Norm_forward (Norm_tensor float32) \<lparr> Norm_eps = 1 / 10 ^ 12, Norm_transforms = [[1]] \<rparr>
       (AList.update 0 (scale_tensor 10 [[[[10 ^ 19]]]]) [(0, [[[[10 ^ 19]]]])])
     = Inr [(0, [[[[0]]]])]
   \<and> Norm_forward (Norm_tensor float32) \<lparr> Norm_eps = 1 / 10 ^ 12, Norm_transforms = [[1]] \<rparr>
       [(0, [[[[10 ^ 19]]]])]
     = Inr [(0, [[[[1]]]])]"
  by (simp add: Norm_forward_def Norm_tensor_def scale_tensor_def Norm_matrix_def mul_scale_def
      rms_of_float32_single rms_of_float32_single_overflow)

text \<open>
  C5, amended. Scaling the tensor of a degree present in the feature map by \<open>c > 0\<close>
  leaves the result of \<open>Norm.forward\<close> unchanged (for that degree and for every other
  one), provided that at every (batch, node) position the norms of the tensor and of
  the scaled tensor stay inside the range of the number format (\<open>in_range\<close>: no sum of
  squares overflows and no square of a nonzero entry is below the smallest normal
  number), and the position
  is all zero or the root mean square of the tensor and of the scaled tensor are both
  at least \<open>eps\<close>, that is, the clamp is inactive on both sides.
\<close>

theorem Norm_scale_invariant_above_eps:
  assumes "0 < c" and "fmt_ok fm"
    and "map_of features d = Some t"
    and "\<forall>batch\<in>set t. \<forall>mat\<in>set batch.
           in_range fm mat \<and> in_range fm (map (map ((*) c)) mat)
           \<and> (rms_exact mat = 0
              \<or> (Norm_eps self \<le> rms_exact mat \<and> Norm_eps self \<le> c * rms_exact mat))"
  shows "Norm_forward (Norm_tensor fm) self (AList.update d (scale_tensor c t) features)
       = Norm_forward (Norm_tensor fm) self features"
  unfolding Norm_forward_def
  by (rule Norm_loop_update [OF assms(3)]) (rule Norm_tensor_scale [OF assms(1,2,4)])

theorem Norm_scale_invariant_above_eps_witness:
  "Norm_forward (Norm_tensor float32) \<lparr> Norm_eps = 1 / 10 ^ 12, Norm_transforms = [[1]] \<rparr>
       (AList.update 0 (scale_tensor 2 [[[[3]], [[0]]]]) [(0, [[[[3]], [[0]]]])])
     = Norm_forward (Norm_tensor float32) \<lparr> Norm_eps = 1 / 10 ^ 12, Norm_transforms = [[1]] \<rparr>
       [(0, [[[[3]], [[0]]]])]"
  by (rule Norm_scale_invariant_above_eps [OF _ float32_ok])
    (simp_all add: rms_exact_single in_range_single float32_def)

section \<open>Properties of the attention mask\<close>

lemma fold_max_ge_init: "(a::real) \<le> fold max xs a"
proof (induction xs arbitrary: a)
  case Nil
  then show ?case by simp
next
  case (Cons x xs)
  have "a \<le> max x a" by simp
  also have "\<dots> \<le> fold max xs (max x a)" by (rule Cons.IH)
  finally show ?case by simp
qed



lemma fl_exp_zero: "fmt_ok fm \<Longrightarrow> fl_exp fm 0 = 1"
  by (simp add: fl_exp_def flush_def fmt_ok_def)

lemma fl_exp_underflow:
  assumes "exp y \<le> fmt_underflow fm" and "x \<le> y"
  shows "fl_exp fm x = 0"
proof -
  have "exp x \<le> exp y" using assms(2) by simp
  then have "exp x \<le> fmt_underflow fm" using assms(1) by linarith
  then show ?thesis by (simp add: fl_exp_def flush_def)
qed



lemma softmax_Cons:
  "softmax fm (x # rest)
     = map (\<lambda>e. flush fm (e / (\<Sum>y\<leftarrow>x # rest. fl_exp fm (y - fold max rest x))))
         (map (\<lambda>y. fl_exp fm (y - fold max rest x)) (x # rest))"
  by (simp add: softmax_def Let_def comp_def)



lemma attn_mask_attend_self:
  assumes "length neighbor_mask = length k"
  shows "attn_mask (attn_sim scale q (attn_keys True self_k k)) neighbor_mask = True # neighbor_mask"
proof -
  have len: "length (attn_sim scale q (attn_keys True self_k k)) = Suc (length neighbor_mask)"
    using assms by (simp add: attn_sim_def attn_keys_def)
  show ?thesis
    unfolding attn_mask_def Let_def len by (simp add: pad_left_def)
qed

lemma masked_row_attend_self:
  assumes "length neighbor_mask = length k"
  shows "masked_fill (attn_sim scale q (attn_keys True self_k k))
           (map Not (attn_mask (attn_sim scale q (attn_keys True self_k k)) neighbor_mask)) v
         = dot q self_k * scale
             # masked_fill (map (\<lambda>kj. dot q kj * scale) k) (map Not neighbor_mask) v"
  unfolding attn_mask_attend_self [OF assms]
  by (simp add: masked_fill_def attn_sim_def attn_keys_def)




text \<open>
  A masked neighbor, in contrast, receives the weight 0 as soon as the self similarity
  is far enough above \<open>-fmt_max\<close> for \<open>exp(-fmt_max - s)\<close> to round to 0.
\<close>

lemma masked_neighbor_weight_zero:
  assumes "length neighbor_mask = length k" and "j < length k" and "\<not> neighbor_mask ! j"
    and "exp (- fmt_max fm - dot q self_k * scale) \<le> fmt_underflow fm"
  shows "attn_weights fm (attn_sim scale q (attn_keys True self_k k)) (Some neighbor_mask) ! Suc j = 0"
proof -
  define s where "s = dot q self_k * scale"
  let ?sim = "attn_sim scale q (attn_keys True self_k k)"
  let ?rest = "masked_fill (map (\<lambda>kj. dot q kj * scale) k) (map Not neighbor_mask) (- fmt_max fm)"
  have row: "masked_fill ?sim (map Not (attn_mask ?sim neighbor_mask)) (- fmt_max fm) = s # ?rest"
    unfolding s_def by (rule masked_row_attend_self [OF assms(1)])
  have w: "attn_weights fm ?sim (Some neighbor_mask) = softmax fm (s # ?rest)"
    by (simp add: attn_weights_def row)
  have len: "length ?rest = length k" using assms(1) by (simp add: masked_fill_def)
  have rj: "?rest ! j = - fmt_max fm"
    using assms(1,2,3) by (simp add: masked_fill_def)
  have "s \<le> fold max ?rest s" by (rule fold_max_ge_init)
  then have "- fmt_max fm - fold max ?rest s \<le> - fmt_max fm - s" by simp
  from fl_exp_underflow [OF assms(4) [folded s_def] this]
  have e: "fl_exp fm (?rest ! j - fold max ?rest s) = 0" by (simp only: rj)
  have "0 < exp (- fmt_max fm - dot q self_k * scale)" by simp
  with assms(4) have "0 \<le> fmt_underflow fm" by linarith
  then have z: "flush fm 0 = 0" by (rule flush_zero)
  have "softmax fm (s # ?rest) ! Suc j = 0"
    unfolding softmax_Cons using assms(2) len by (simp add: e z)
  then show ?thesis by (simp only: w)
qed

lemma masked_neighbor_weight_zero_float32:
  "attn_weights float32 (attn_sim 1 [1] (attn_keys True [3] [[1], [2]])) (Some [False, False])
     = [1, 0, 0]"
proof -
  have sim: "attn_sim 1 [1] (attn_keys True [3] [[1], [2]]) = [3, 1, 2]"
    by (simp add: attn_sim_def attn_keys_def dot_def)
  have m: "attn_mask [3, 1, 2] [False, False] = [True, False, False]"
    by (simp add: attn_mask_def pad_left_def)
  have a: "exp (- fmt_max float32 - 3) \<le> exp (- 200)"
    by (simp add: float32_def)
  have "exp (- fmt_max float32 - 3) \<le> fmt_underflow float32"
    unfolding float32_underflow using a exp_minus_200 by linarith
  then have "fl_exp float32 (- fmt_max float32 - 3) = 0"
    by (rule fl_exp_underflow) simp
  then have e1: "fl_exp float32 (- 340282346638528859811704183484516925443) = 0"
    by (simp add: float32_max)
  have e2: "fl_exp float32 0 = 1"
    by (rule fl_exp_zero [OF float32_ok])
  show ?thesis
    unfolding sim
    by (simp add: attn_weights_def m masked_fill_def softmax_Cons e1 e2 max_def float32_max
        flush_float32_zero flush_float32_one)
qed

section \<open>Properties of the neighbor selection\<close>

lemma zip_concat:
  "list_all2 (\<lambda>x y. length x = length y) xs ys \<Longrightarrow>
   zip (concat xs) (concat ys) = concat (map2 zip xs ys)"
  by (induction xs ys rule: list_all2_induct) simp_all

lemma filter_snd_zip_map: "map fst (filter snd (zip xs (map P xs))) = filter P xs"
  by (induction xs) simp_all

lemma masked_row:
  "map fst (filter snd (zip (concat (replicate n [0..<n])) (concat (exclude_self_mask n))))
     = concat (candidate_rows n)"
proof -
  have a: "list_all2 (\<lambda>x y. length x = length y) (replicate n [0..<n]) (exclude_self_mask n)"
    by (simp add: list_all2_conv_all_nth exclude_self_mask_def)
  have b: "map2 zip (replicate n [0..<n]) (exclude_self_mask n)
           = map (\<lambda>i. zip [0..<n] (map (\<lambda>j. i \<noteq> j) [0..<n])) [0..<n]"
    by (rule nth_equalityI) (simp_all add: exclude_self_mask_def)
  show ?thesis
    unfolding zip_concat [OF a] b candidate_rows_def
    by (simp add: filter_concat map_concat comp_def filter_snd_zip_map)
qed

lemma masked_select_indices:
  "masked_select (replicate b (replicate n [0..<n])) (exclude_self_mask n)
     = concat (concat (replicate b (candidate_rows n)))"
proof -
  have a: "list_all2 (\<lambda>x y. length x = length y)
             (replicate b (concat (replicate n [0..<n])))
             (replicate b (concat (exclude_self_mask n)))"
    by (simp add: list_all2_conv_all_nth exclude_self_mask_def length_concat comp_def
        sum_list_replicate sum_list_triv)
  have b: "map2 zip (replicate b (concat (replicate n [0..<n])))
                    (replicate b (concat (exclude_self_mask n)))
           = replicate b (zip (concat (replicate n [0..<n])) (concat (exclude_self_mask n)))"
    by (rule nth_equalityI) simp_all
  have "masked_select (replicate b (replicate n [0..<n])) (exclude_self_mask n)
      = map fst (filter snd (zip (concat (replicate b (concat (replicate n [0..<n]))))
                                 (concat (replicate b (concat (exclude_self_mask n))))))"
    by (simp add: masked_select_def map_replicate_const)
  also have "\<dots> = concat (replicate b (concat (candidate_rows n)))"
    unfolding zip_concat [OF a] b
    by (simp add: filter_concat map_concat masked_row)
  also have "\<dots> = concat (concat (replicate b (candidate_rows n)))"
    by (induction b) simp_all
  finally show ?thesis .
qed

lemma length_candidate_row:
  "length (filter ((\<noteq>) i) [0..<n]) = (if i < n then n - 1 else n)"
  by (induction n) (auto simp: less_Suc_eq)

lemma candidate_rows_uniform: "r \<in> set (concat (replicate b (candidate_rows n))) \<Longrightarrow> length r = n - 1"
  by (auto simp: candidate_rows_def length_candidate_row split: if_splits)

lemma narrow_concat_uniform:
  assumes "\<And>r. r \<in> set rows \<Longrightarrow> length r = m" and "k < length rows"
  shows "narrow (concat rows) (k * m) m = rows ! k"
  using assms
proof (induction rows arbitrary: k)
  case Nil
  then show ?case by simp
next
  case (Cons r rows)
  have lr: "length r = m" using Cons.prems(1) by simp
  show ?case
  proof (cases k)
    case 0
    then show ?thesis using lr by (simp add: narrow_def)
  next
    case (Suc k')
    have "narrow (concat (r # rows)) (Suc k' * m) m = narrow (concat rows) (k' * m) m"
      using lr by (simp add: narrow_def)
    then show ?thesis using Cons Suc by simp
  qed
qed

lemma nth_concat_replicate:
  assumes "bi < b" and "i < length rows"
  shows "concat (replicate b rows) ! (bi * length rows + i) = rows ! i"
  using assms(1)
proof (induction b arbitrary: bi)
  case 0
  then show ?case by simp
next
  case (Suc b)
  show ?case
  proof (cases bi)
    case 0
    then show ?thesis using assms(2) by (simp add: nth_append)
  next
    case (Suc bi')
    then have "bi' < b" using Suc.prems by simp
    then show ?thesis using Suc.IH [of bi'] Suc by (simp add: nth_append)
  qed
qed

lemma self_excluded_indices_eq:
  assumes "0 < n"
  shows "self_excluded_indices b n = Inr (replicate b (candidate_rows n))"
proof -
  let ?rows = "concat (replicate b (candidate_rows n))"
  have len_rows: "length ?rows = b * n"
    by (simp add: length_concat comp_def sum_list_replicate candidate_rows_def)
  have uni: "\<And>r. r \<in> set ?rows \<Longrightarrow> length r = n - 1"
    by (rule candidate_rows_uniform)
  have len_flat: "length (concat ?rows) = b * n * (n - 1)"
  proof -
    have "map length ?rows = replicate (b * n) (n - 1)"
      using uni len_rows by (intro replicate_eqI) auto
    then show ?thesis by (simp add: length_concat sum_list_replicate)
  qed
  have rows: "map (\<lambda>bi. map (\<lambda>i. narrow (concat ?rows) ((bi * n + i) * (n - 1)) (n - 1)) [0..<n]) [0..<b]
            = replicate b (candidate_rows n)"
  proof (rule nth_equalityI)
    show "length (map (\<lambda>bi. map (\<lambda>i. narrow (concat ?rows) ((bi * n + i) * (n - 1)) (n - 1)) [0..<n]) [0..<b])
        = length (replicate b (candidate_rows n))" by simp
  next
    fix bi assume "bi < length (map (\<lambda>bi. map (\<lambda>i. narrow (concat ?rows) ((bi * n + i) * (n - 1)) (n - 1)) [0..<n]) [0..<b])"
    then have bi: "bi < b" by simp
    have "map (\<lambda>i. narrow (concat ?rows) ((bi * n + i) * (n - 1)) (n - 1)) [0..<n] = candidate_rows n"
    proof (rule nth_equalityI)
      show "length (map (\<lambda>i. narrow (concat ?rows) ((bi * n + i) * (n - 1)) (n - 1)) [0..<n])
          = length (candidate_rows n)" by (simp add: candidate_rows_def)
    next
      fix i assume "i < length (map (\<lambda>i. narrow (concat ?rows) ((bi * n + i) * (n - 1)) (n - 1)) [0..<n])"
      then have i: "i < n" by simp
      have "bi * n + i < b * n"
      proof -
        have "bi * n + i < bi * n + n" using i by simp
        also have "\<dots> = Suc bi * n" by simp
        also have "\<dots> \<le> b * n" using bi by (intro mult_le_mono1) simp
        finally show ?thesis .
      qed
      then have "narrow (concat ?rows) ((bi * n + i) * (n - 1)) (n - 1) = ?rows ! (bi * n + i)"
        using uni len_rows by (intro narrow_concat_uniform) auto
      also have "\<dots> = candidate_rows n ! i"
        using nth_concat_replicate [of bi b i "candidate_rows n"] bi i
        by (simp add: candidate_rows_def)
      finally show "map (\<lambda>i. narrow (concat ?rows) ((bi * n + i) * (n - 1)) (n - 1)) [0..<n] ! i
          = candidate_rows n ! i" using i by simp
    qed
    then show "map (\<lambda>bi. map (\<lambda>i. narrow (concat ?rows) ((bi * n + i) * (n - 1)) (n - 1)) [0..<n]) [0..<b] ! bi
        = replicate b (candidate_rows n) ! bi" using bi by simp
  qed
  have "reshape3 (concat ?rows) b n (n - 1) = Inr (replicate b (candidate_rows n))"
    by (simp only: reshape3_def len_flat rows simp_thms if_False)
  then show ?thesis
    using assms
    by (simp only: self_excluded_indices_def Let_def masked_select_indices) simp
qed

lemma sequence_err_Inr: "sequence_err xs = Inr ys \<Longrightarrow> xs = map Inr ys"
proof (induction xs arbitrary: ys)
  case Nil
  then show ?case by simp
next
  case (Cons x xs)
  then show ?case
    by (cases x; cases "sequence_err xs") auto
qed

lemma select_row_subset: "select_row vals idx = Inr row \<Longrightarrow> set row \<subseteq> set vals"
proof -
  assume "select_row vals idx = Inr row"
  then have m: "map (\<lambda>j. if j < length vals then Inr (vals ! j) else Inl IndexError) idx = map Inr row"
    unfolding select_row_def by (rule sequence_err_Inr)
  show ?thesis
  proof
    fix v assume "v \<in> set row"
    then have "Inr v \<in> set (map (\<lambda>j. if j < length vals then (Inr (vals ! j) :: error + 'a) else Inl IndexError) idx)"
      unfolding m by simp
    then obtain j where "j \<in> set idx" "(if j < length vals then Inr (vals ! j) else Inl IndexError) = (Inr v :: error + 'a)"
      by auto
    then show "v \<in> set vals" by (auto split: if_splits)
  qed
qed

lemma batched_index_select2_rows:
  assumes "batched_index_select2 vals idx = Inr out" and "bi < length out" and "i < length (out ! bi)"
  shows "bi < length vals \<and> i < length (vals ! bi) \<and> set (out ! bi ! i) \<subseteq> set (vals ! bi ! i)"
proof -
  have len: "length vals = length idx"
    using assms(1) by (auto simp: batched_index_select2_def split: if_splits)
  then have "map2 (\<lambda>vb ib. if length vb \<noteq> length ib then Inl RuntimeError
                         else sequence_err (map2 select_row vb ib)) vals idx = map Inr out"
    using assms(1) by (auto simp: batched_index_select2_def intro: sequence_err_Inr)
  then have lo: "length out = length vals"
    and nth: "\<And>k. k < length vals \<Longrightarrow>
         (if length (vals ! k) \<noteq> length (idx ! k) then Inl RuntimeError
          else sequence_err (map2 select_row (vals ! k) (idx ! k))) = Inr (out ! k)"
    using len by (auto dest: arg_cong [where f = length] simp: list_eq_iff_nth_eq)
  have bi: "bi < length vals" using assms(2) lo by simp
  from nth [OF bi] have l2: "length (vals ! bi) = length (idx ! bi)"
    and s: "sequence_err (map2 select_row (vals ! bi) (idx ! bi)) = Inr (out ! bi)"
    by (auto split: if_splits)
  from sequence_err_Inr [OF s]
  have m: "map2 select_row (vals ! bi) (idx ! bi) = map Inr (out ! bi)" .
  then have lo2: "length (out ! bi) = length (vals ! bi)"
    using l2 by (auto dest: arg_cong [where f = length])
  then have i: "i < length (vals ! bi)" using assms(3) by simp
  have "map2 select_row (vals ! bi) (idx ! bi) ! i = map Inr (out ! bi) ! i"
    using m by simp
  then have "select_row (vals ! bi ! i) (idx ! bi ! i) = Inr (out ! bi ! i)"
    using i l2 assms(3) by simp
  then have "set (out ! bi ! i) \<subseteq> set (vals ! bi ! i)" by (rule select_row_subset)
  with bi i show ?thesis by simp
qed

lemma forward_neighbors_Inr:
  assumes "forward_neighbors ops self b n coors msk edges neighbor_mask
             = Inr ((neighbor_indices, nmask, e), rd, rp)"
  shows "\<exists>nearest. 0 < n \<and>
           batched_index_select2 (replicate b (candidate_rows n)) nearest = Inr neighbor_indices"
proof (cases "n = 0")
  case True
  then show ?thesis using assms
    by (simp add: forward_neighbors_def self_excluded_indices_def)
next
  case False
  then have n: "0 < n" by simp
  show ?thesis
    using assms n unfolding forward_neighbors_def self_excluded_indices_eq [OF n]
    by (auto simp: Let_def split: if_splits sum.splits)
qed

lemma toy_model_constructed:
  "Equiformer_init toy_init (toy_config 1 2 Infinity 1) = Inr (toy_model 2 Infinity 1)"
proof -
  have "\<not> isl (Equiformer_init toy_init (toy_config 1 2 Infinity 1))" by code_simp
  then show ?thesis by (simp add: toy_model_def)
qed

text \<open>
  C3. Whenever the neighbor selection of a forward call returns, then for every batch
  element \<open>bi\<close> and node \<open>i\<close> the index \<open>i\<close> is not among \<open>neighbor_indices[bi][i]\<close>; these
  are indices of nodes. The index tensor with the diagonal removed (lines 578--581)
  holds, for every batch element and node \<open>i\<close>, the \<open>n - 1\<close> nodes other than \<open>i\<close>, and the
  neighbors are selected among them. This holds whatever indices the top-k of the
  runtime returns: an index outside the candidates makes the selection raise.
\<close>

theorem neighbor_indices_exclude_self:
  assumes "forward_neighbors ops self b n coors msk edges neighbor_mask
             = Inr ((neighbor_indices, nmask, e), rd, rp)"
    and "bi < length neighbor_indices" and "i < length (neighbor_indices ! bi)"
  shows "i \<notin> set (neighbor_indices ! bi ! i)
       \<and> set (neighbor_indices ! bi ! i) \<subseteq> {0..<n}
       \<and> bi < b \<and> i < n
       \<and> self_excluded_indices b n = Inr (replicate b (candidate_rows n))
       \<and> length (candidate_rows n ! i) = n - 1"
proof -
  from forward_neighbors_Inr [OF assms(1)] obtain nearest where n: "0 < n"
    and sel: "batched_index_select2 (replicate b (candidate_rows n)) nearest = Inr neighbor_indices"
    by blast
  note rows = batched_index_select2_rows [OF sel assms(2,3)]
  have bi: "bi < b" using rows by simp
  have i: "i < length (replicate b (candidate_rows n) ! bi)" using rows by blast
  have sub: "set (neighbor_indices ! bi ! i) \<subseteq> set (replicate b (candidate_rows n) ! bi ! i)"
    using rows by blast
  from bi i have i': "i < n" by (simp add: candidate_rows_def)
  have "replicate b (candidate_rows n) ! bi ! i = filter ((\<noteq>) i) [0..<n]"
    using bi i' by (simp add: candidate_rows_def)
  with sub have "set (neighbor_indices ! bi ! i) \<subseteq> {j. j < n \<and> j \<noteq> i}" by auto
  moreover have "length (candidate_rows n ! i) = n - 1"
    using i' by (simp add: candidate_rows_def length_candidate_row)
  ultimately show ?thesis
    using bi i' self_excluded_indices_eq [OF n, of b] by auto
qed

theorem neighbor_indices_exclude_self_witness:
  "forward_neighbors toy_ops (toy_model 2 Infinity 1) 1 3 [1, 2, 3] None None None
     = Inr (([[[1, 2], [0, 2], [0, 1]]], Some [1, 2, 3], None), [1, 2, 3], [1, 2, 3])
   \<and> 1 \<notin> set ([[[1, 2], [0, 2], [0, 1 :: nat]]] ! 0 ! 1)"
proof -
  have h: "forward_neighbors toy_ops (toy_model 2 Infinity 1) 1 3 [1, 2, 3] None None None
     = Inr (([[[1, 2], [0, 2], [0, 1]]], Some [1, 2, 3], None), [1, 2, 3], [1, 2, 3])"
    by code_simp
  from neighbor_indices_exclude_self [OF h, of 0 1] show ?thesis
    using h by simp
qed

lemma forward_neighbors_zero_total:
  assumes "0 < n" and "\<not> py_min (E_num_neighbors self) (int n - 1) > 0"
  shows "forward_neighbors ops self b n coors msk edges neighbor_mask
           = Inl (if (edges \<noteq> None \<and> b * n * (n - 1) = 0) \<or> (neighbor_mask \<noteq> None \<and> b * n = 0)
                  then RuntimeError
                  else AssertionError ''you must be fetching at least 1 neighbor'')"
  using assms(2) unfolding forward_neighbors_def self_excluded_indices_eq [OF assms(1)]
  by (simp add: Let_def)

lemma forward_neighbors_no_nodes:
  "forward_neighbors ops self b 0 coors msk edges neighbor_mask = Inl RuntimeError"
  by (simp add: forward_neighbors_def self_excluded_indices_def)

lemma forward_embed_topk:
  "forward_embed (ops\<lparr>op_topk := tk\<rparr>) self feats edges = forward_embed ops self feats edges"
  by (simp add: forward_embed_def Let_def
      cong: option.case_cong sum.case_cong feats_in.case_cong if_cong)

text \<open>
  C6. When the input checks of a forward call pass and the number of neighbors to
  fetch, \<open>int(min(num_neighbors, n - 1))\<close>, is zero, the call fails and returns no
  result, whatever the top-k of the runtime (\<open>tk\<close>) computes: the failure comes before
  the neighbor selection of line 626. For a batch that is not empty the exception is
  the assertion error of line 622, except when edges are given for a single node:
  then \<open>reshape(b, 1, 0, -1)\<close> of line 592 raises first.
\<close>

theorem zero_total_neighbors_fails:
  assumes "forward_embed ops self feats edges = Inr (feats', b, n)"
    and "py_min (E_num_neighbors self) (int n - 1) = 0"
  shows "(\<exists>e. Equiformer_forward (ops\<lparr>op_topk := tk\<rparr>) self feats coors msk adj_mat edges
                 return_type return_pooled neighbor_mask = Inl e)
       \<and> (0 < b \<longrightarrow>
            Equiformer_forward (ops\<lparr>op_topk := tk\<rparr>) self feats coors msk adj_mat edges
                 return_type return_pooled neighbor_mask
              = Inl (if edges \<noteq> None \<and> n = 1 then RuntimeError
                     else AssertionError ''you must be fetching at least 1 neighbor''))"
proof -
  let ?ops = "ops\<lparr>op_topk := tk\<rparr>"
  have "0 \<le> int n - 1"
    using assms(2) by (cases "E_num_neighbors self") (auto simp: py_min_def min_def split: if_splits)
  then have n: "0 < n" by simp
  have fn: "forward_neighbors ?ops self b n coors msk edges neighbor_mask
           = Inl (if (edges \<noteq> None \<and> b * n * (n - 1) = 0) \<or> (neighbor_mask \<noteq> None \<and> b * n = 0)
                  then RuntimeError
                  else AssertionError ''you must be fetching at least 1 neighbor'')"
    by (rule forward_neighbors_zero_total [OF n]) (simp add: assms(2))
  have fw: "Equiformer_forward ?ops self feats coors msk adj_mat edges return_type return_pooled
              neighbor_mask
            = Inl (if (edges \<noteq> None \<and> b * n * (n - 1) = 0) \<or> (neighbor_mask \<noteq> None \<and> b * n = 0)
                   then RuntimeError
                   else AssertionError ''you must be fetching at least 1 neighbor'')"
    unfolding Equiformer_forward_def forward_embed_topk assms(1) using fn by simp
  have one: "n - 1 = 0 \<longleftrightarrow> n = 1" using n by auto
  show ?thesis
    unfolding fw using n by (auto simp: one)
qed

theorem zero_total_neighbors_fails_witness:
  "forward_embed toy_ops (toy_model 2 (Fin 5) 1) (FeatTensor [7]) None = Inr ([(0, [7])], 1, 1)
   \<and> py_min (E_num_neighbors (toy_model 2 (Fin 5) 1)) (int 1 - 1) = 0
   \<and> Equiformer_forward toy_ops (toy_model 2 (Fin 5) 1) (FeatTensor [7]) [1] None None None None
        False None
      = Inl (AssertionError ''you must be fetching at least 1 neighbor'')"
proof -
  have h: "forward_embed toy_ops (toy_model 2 (Fin 5) 1) (FeatTensor [7]) None
             = Inr ([(0, [7])], 1, 1)"
    by code_simp
  have k: "py_min (E_num_neighbors (toy_model 2 (Fin 5) 1)) (int 1 - 1) = 0"
    by code_simp
  from zero_total_neighbors_fails [OF h k, of "op_topk toy_ops" "[1]" None None None False None]
  show ?thesis using h k by simp
qed

text \<open>
  The same model and node with edge features supplied: the reshape of line 592 raises
  before the assertion is reached.
\<close>

lemma single_node_with_edges_raises:
  "Equiformer_forward toy_ops (toy_model 2 (Fin 5) 1) (FeatTensor [7]) [1] None None (Some [1])
        None False None
      = Inl RuntimeError"
  by code_simp

text \<open>
  C2. A model whose \<open>num_neighbors\<close> is 0 never completes a forward call: the
  assignment \<open>valid_radius = 0\<close> of line 615 is followed by the assertion
  \<open>total_neighbors > 0\<close> of line 622, which fails since
  \<open>total_neighbors = min(0, n - 1)\<close>. The comment of line 612 describes this
  configuration as fetching only the neighbors given by the adjacency matrix, an
  argument that the forward call never reads.
\<close>

theorem zero_num_neighbors_never_completes:
  assumes "E_num_neighbors self = Fin 0"
  shows "\<forall>r. Equiformer_forward ops self feats coors msk adj_mat edges return_type return_pooled
           neighbor_mask \<noteq> Inr r"
proof (cases "forward_embed ops self feats edges")
  case (Inl e)
  then show ?thesis by (simp add: Equiformer_forward_def)
next
  case (Inr st)
  obtain feats' b n where st: "st = (feats', b, n)" by (cases st)
  have "\<exists>e. forward_neighbors ops self b n coors msk edges neighbor_mask = Inl e"
  proof (cases "n = 0")
    case True
    then show ?thesis by (simp add: forward_neighbors_no_nodes)
  next
    case False
    then have "0 < n" and "\<not> py_min (E_num_neighbors self) (int n - 1) > 0"
      by (simp_all add: assms py_min_def)
    from forward_neighbors_zero_total [OF this] show ?thesis by blast
  qed
  then show ?thesis
    using Inr st by (auto simp: Equiformer_forward_def)
qed

theorem zero_num_neighbors_never_completes_witness:
  "E_num_neighbors (toy_model 2 (Fin 0) 1) = Fin 0
   \<and> (\<forall>r. Equiformer_forward toy_ops (toy_model 2 (Fin 0) 1) (FeatTensor [1, 2, 3]) [1, 2, 3]
             None None None None False None \<noteq> Inr r)
   \<and> Equiformer_forward toy_ops (toy_model 2 (Fin 0) 1) (FeatTensor [1, 2, 3]) [1, 2, 3]
        None None None None False None
      = Inl (AssertionError ''you must be fetching at least 1 neighbor'')"
proof -
  have h: "E_num_neighbors (toy_model 2 (Fin 0) 1) = Fin 0" by code_simp
  have e: "Equiformer_forward toy_ops (toy_model 2 (Fin 0) 1) (FeatTensor [1, 2, 3]) [1, 2, 3]
        None None None None False None
      = Inl (AssertionError ''you must be fetching at least 1 neighbor'')"
    by code_simp
  from zero_num_neighbors_never_completes [OF h] h e show ?thesis by blast
qed

section \<open>Properties of Conv: chunking\<close>

lemma narrow_map: "map f (narrow a s l) = narrow (map f a) s l"
  by (simp add: narrow_def take_map drop_map)

lemma narrow_map2: "map2 f (narrow a s l) (narrow b s l) = narrow (map2 f a b) s l"
  by (simp add: narrow_def take_map drop_map take_zip drop_zip)

lemma fast_split_loop_length: "length (fast_split_loop arr k c r s) = k"
  by (induction k arbitrary: r s) (simp_all add: Let_def)

lemma zip_star_Nil: "zip_star [] = []"
  by (simp add: zip_star.simps)

lemma zip_star_empty_lists: "zip_star (map (\<lambda>B. []) Bs) = []"
  by (cases Bs) (simp_all add: zip_star.simps)

lemma zip_star_fast_split_loop:
  "Bs \<noteq> [] \<Longrightarrow>
   zip_star (map (\<lambda>B. fast_split_loop B (Suc k) c r s) Bs) =
     map (\<lambda>B. narrow B s (c + (if r > 0 then 1 else 0))) Bs
       # zip_star (map (\<lambda>B. fast_split_loop B k c (r - 1) (s + (c + (if r > 0 then 1 else 0)))) Bs)"
  by (subst zip_star.simps) (auto simp: Let_def comp_def)

lemma map_of_zip_narrow:
  "map_of (zip (map fst basis) (map (\<lambda>B. narrow B s l) (map snd basis))) key
     = map_option (\<lambda>B. narrow B s l) (map_of basis key)"
  by (induction basis) auto

lemma PairwiseConv_forward_narrow:
  assumes "map_of basis (PC_degree_in pc, PC_degree_out pc) = Some B"
  shows "PairwiseConv_forward ops pc (narrow e s l)
              (zip (map fst basis) (map (\<lambda>B. narrow B s l) (map snd basis)))
            = Inr (map2 (op_contract ops (int (PC_d_out pc) * PC_nc_out pc))
                     (map (RadialFunc_forward ops (PC_rp pc)) (narrow e s l)) (narrow B s l))"
  by (simp only: PairwiseConv_forward_def Let_def map_of_zip_narrow assms option.map option.case)

lemma chunk_full_narrow:
  "map2 (op_einsum ops)
      (map2 (op_contract ops (int (PC_d_out pc) * PC_nc_out pc))
         (map (RadialFunc_forward ops (PC_rp pc)) (narrow e s l)) (narrow B s l))
      (narrow x s l)
    = narrow (chunk_full ops pc x e B) s l"
  by (simp only: chunk_full_def narrow_map narrow_map2)

lemma Conv_chunks_loop_present:
  assumes "map_of basis (PC_degree_in pc, PC_degree_out pc) = Some B"
  shows "Conv_chunks ops pc
           (zip (fast_split_loop x k c r s)
              (zip (fast_split_loop e k c r s)
                 (map (\<lambda>v. zip (map fst basis) v)
                    (zip_star (map (\<lambda>B. fast_split_loop B k c r s) (map snd basis)))))) acc
         = Inr (if k = 0 then acc
                else Some (case_option [] id acc @ concat (fast_split_loop (chunk_full ops pc x e B) k c r s)))"
proof (induction k arbitrary: r s acc)
  case 0
  then show ?case by simp
next
  case (Suc k)
  have ne: "map snd basis \<noteq> []" using assms by auto
  define l where "l = c + (if r > 0 then 1 else 0)"
  have z: "zip_star (map (\<lambda>B. fast_split_loop B (Suc k) c r s) (map snd basis)) =
     map (\<lambda>B. narrow B s l) (map snd basis)
       # zip_star (map (\<lambda>B. fast_split_loop B k c (r - 1) (s + l)) (map snd basis))"
    unfolding l_def by (rule zip_star_fast_split_loop [OF ne])
  have f: "\<And>arr::'a tensor. fast_split_loop arr (Suc k) c r s
             = narrow arr s l # fast_split_loop arr k c (r - 1) (s + l)"
    unfolding l_def by (simp add: Let_def)
  show ?case
    unfolding z
    apply (simp only: f list.map zip_Cons_Cons Conv_chunks.simps prod.case
        PairwiseConv_forward_narrow [OF assms] sum.case chunk_full_narrow Let_def Suc.IH)
    apply (cases acc; cases k; simp add: safe_cat_def)
    done
qed


lemma Conv_chunks_loop_absent:
  assumes "map_of basis (PC_degree_in pc, PC_degree_out pc) = None" and "basis \<noteq> []"
  shows "Conv_chunks ops pc
           (zip (fast_split_loop x k c r s)
              (zip (fast_split_loop e k c r s)
                 (map (\<lambda>v. zip (map fst basis) v)
                    (zip_star (map (\<lambda>B. fast_split_loop B k c r s) (map snd basis)))))) acc
         = (if k = 0 then Inr acc
            else Inl (KernelKeyError (PC_degree_in pc) (PC_degree_out pc)))"
proof (cases k)
  case 0
  then show ?thesis by simp
next
  case (Suc k')
  have ne: "map snd basis \<noteq> []" using assms(2) by auto
  define l where "l = c + (if r > 0 then 1 else 0)"
  have z: "zip_star (map (\<lambda>B. fast_split_loop B (Suc k') c r s) (map snd basis)) =
     map (\<lambda>B. narrow B s l) (map snd basis)
       # zip_star (map (\<lambda>B. fast_split_loop B k' c (r - 1) (s + l)) (map snd basis))"
    unfolding l_def by (rule zip_star_fast_split_loop [OF ne])
  have f: "\<And>arr::'a tensor. fast_split_loop arr (Suc k') c r s
             = narrow arr s l # fast_split_loop arr k' c (r - 1) (s + l)"
    unfolding l_def by (simp add: Let_def)
  have pw: "PairwiseConv_forward ops pc (narrow e s l)
              (zip (map fst basis) (map (\<lambda>B. narrow B s l) (map snd basis)))
            = Inl (KernelKeyError (PC_degree_in pc) (PC_degree_out pc))"
    by (simp only: PairwiseConv_forward_def Let_def map_of_zip_narrow assms(1) option.map option.case)
  show ?thesis
    unfolding Suc z
    by (simp only: f list.map zip_Cons_Cons Conv_chunks.simps prod.case pw sum.case) simp
qed

lemma concat_fast_split_loop:
  "concat (fast_split_loop arr k c r s)
     = narrow arr s (k * c + nat (max 0 (min r (int k))))"
proof (induction k arbitrary: r s)
  case 0
  then show ?case by (simp add: narrow_def)
next
  case (Suc k)
  define a where "a = (if r > 0 then 1 else 0 :: nat)"
  have ar: "c + a + (k * c + nat (max 0 (min (r - 1) (int k))))
          = Suc k * c + nat (max 0 (min r (int (Suc k))))"
    by (auto simp: a_def max_def min_def)
  have "concat (fast_split_loop arr (Suc k) c r s)
      = narrow arr s (c + a) @ narrow arr (s + (c + a)) (k * c + nat (max 0 (min (r - 1) (int k))))"
    by (simp add: Let_def a_def Suc.IH)
  also have "\<dots> = narrow arr s (c + a + (k * c + nat (max 0 (min (r - 1) (int k)))))"
    by (simp add: narrow_def take_add add.commute)
  finally show ?case by (simp only: ar)
qed

lemma concat_fast_split: "concat (fast_split arr splits) = arr"
proof (cases "arr = []")
  case True
  then show ?thesis by (simp add: fast_split_def)
next
  case False
  define n where "n = length arr"
  define k where "k = min n (nat (max splits 1))"
  have n: "0 < n" using False by (simp add: n_def)
  then have k: "0 < k" "k \<le> n" by (auto simp: k_def)
  have r: "int n - int (n div k * k) = int (n mod k)"
    by (metis minus_div_mult_eq_mod of_nat_diff div_times_less_eq_dividend)
  have "nat (max 0 (min (int (n mod k)) (int k))) = n mod k"
    using k by (simp add: min_def)
  then have tot: "k * (n div k) + nat (max 0 (min (int (n mod k)) (int k))) = n"
    by simp
  have "fast_split arr splits = fast_split_loop arr k (n div k) (int n - int (n div k * k)) 0"
    by (simp add: fast_split_def Let_def n_def k_def)
  then have "concat (fast_split arr splits)
      = narrow arr 0 (k * (n div k) + nat (max 0 (min (int (n mod k)) (int k))))"
    by (simp only: r concat_fast_split_loop)
  also have "\<dots> = narrow arr 0 n" by (simp only: tot)
  also have "\<dots> = arr" by (simp add: narrow_def n_def)
  finally show ?thesis .
qed

lemma Conv_chunks_fast_split:
  assumes "length e = length x" and "list_all (\<lambda>B. length B = length x) (map snd basis)"
  shows "Conv_chunks ops pc
           (zip (fast_split x sp) (zip (fast_split e sp) (Conv_split_basis basis sp))) None
         = chunk_ref ops pc x e basis"
proof -
  define n where "n = length x"
  define k where "k = min n (nat (max sp 1))"
  define c where "c = n div k"
  define r where "r = int n - int (c * k)"
  have fx: "fast_split x sp = fast_split_loop x k c r 0"
    by (simp add: fast_split_def Let_def n_def k_def c_def r_def)
  have fe: "fast_split e sp = fast_split_loop e k c r 0"
    using assms(1) by (simp add: fast_split_def Let_def n_def k_def c_def r_def)
  have fB: "fast_split B sp = fast_split_loop B k c r 0" if "length B = length x" for B :: "'a tensor"
    using that by (simp add: fast_split_def Let_def n_def k_def c_def r_def)
  have "map (\<lambda>t. fast_split t sp) (map snd basis)
          = map (\<lambda>B. fast_split_loop B k c r 0) (map snd basis)"
  proof (rule map_cong [OF refl])
    fix B assume "B \<in> set (map snd basis)"
    then have "length B = length x" using assms(2) by (auto simp: list_all_iff)
    then show "fast_split B sp = fast_split_loop B k c r 0" by (rule fB)
  qed
  then have sb: "Conv_split_basis basis sp =
      map (\<lambda>v. zip (map fst basis) v)
        (zip_star (map (\<lambda>B. fast_split_loop B k c r 0) (map snd basis)))"
    by (simp only: Conv_split_basis_def Let_def)
  show ?thesis
  proof (cases "basis = []")
    case True
    show ?thesis
      unfolding sb by (simp add: True zip_star_Nil chunk_ref_def)
  next
    case ne: False
    show ?thesis
    proof (cases "map_of basis (PC_degree_in pc, PC_degree_out pc)")
      case None
      have "k = 0 \<longleftrightarrow> x = []" by (auto simp: k_def n_def min_def max_def split: if_splits)
      then show ?thesis
        unfolding fx fe sb Conv_chunks_loop_absent [OF None ne]
        using None ne by (simp add: chunk_ref_def)
    next
      case (Some B)
      have k0: "k = 0 \<longleftrightarrow> x = []" by (auto simp: k_def n_def min_def max_def split: if_splits)
      have "B \<in> set (map snd basis)" using Some by (force dest: map_of_SomeD)
      then have lB: "length B = length x" using assms(2) by (auto simp: list_all_iff)
      have len: "length (chunk_full ops pc x e B) = n"
        using assms(1) lB by (simp add: chunk_full_def n_def)
      have "fast_split (chunk_full ops pc x e B) sp
              = fast_split_loop (chunk_full ops pc x e B) k c r 0"
        by (simp add: fast_split_def Let_def len k_def c_def r_def)
      then have "concat (fast_split_loop (chunk_full ops pc x e B) k c r 0)
              = chunk_full ops pc x e B"
        using concat_fast_split [of "chunk_full ops pc x e B" sp] by simp
      then show ?thesis
        unfolding fx fe sb Conv_chunks_loop_present [OF Some]
        using Some ne k0 by (simp add: chunk_ref_def)
    qed
  qed
qed


lemma Conv_input_splits:
  assumes sel: "\<And>d x. map_of inp d = Some x \<Longrightarrow>
                  length (op_index_select ops x (fst edge_info)) = length rd"
    and edg: "\<And>e. snd (snd edge_info) = Some e \<Longrightarrow> length e = length rd"
    and bas: "list_all (\<lambda>B. length B = length rd) (map snd basis)"
  shows "Conv_input ops (self\<lparr>Conv_splits := sp\<rparr>) inp edge_info rd (Conv_split_basis basis sp)
           degree_out degree_in m_in outp
       = Conv_input ops (self\<lparr>Conv_splits := sp'\<rparr>) inp edge_info rd (Conv_split_basis basis sp')
           degree_out degree_in m_in outp"
proof (cases "map_of inp degree_in")
  case None
  then show ?thesis by (simp add: Conv_input_def)
next
  case (Some x0)
  define x where "x = map (op_view_in ops (int (to_order degree_in) * m_in))
                        (op_index_select ops x0 (fst edge_info))"
  define e where "e = (case snd (snd edge_info) of
                         Some e \<Rightarrow> map2 (op_cat_last ops) rd e | None \<Rightarrow> rd)"
  have lx: "length x = length rd" by (simp add: x_def sel [OF Some])
  have le: "length e = length x"
    by (cases "snd (snd edge_info)") (simp_all add: e_def lx edg)
  have lb: "list_all (\<lambda>B. length B = length x) (map snd basis)"
    using bas by (simp add: lx)
  have ch: "Conv_chunks ops pc (zip (fast_split x q) (zip (fast_split e q) (Conv_split_basis basis q))) None
          = chunk_ref ops pc x e basis" for pc q
    by (rule Conv_chunks_fast_split [OF le lb])
  show ?thesis
    unfolding Conv_input_def Let_def Some option.case fst_conv snd_conv
    unfolding x_def [symmetric] e_def [symmetric]
    by (simp add: ch cong: option.case_cong sum.case_cong)
qed

lemma Conv_inputs_splits:
  assumes sel: "\<And>d x. map_of inp d = Some x \<Longrightarrow>
                  length (op_index_select ops x (fst edge_info)) = length rd"
    and edg: "\<And>e. snd (snd edge_info) = Some e \<Longrightarrow> length e = length rd"
    and bas: "list_all (\<lambda>B. length B = length rd) (map snd basis)"
  shows "Conv_inputs ops (self\<lparr>Conv_splits := sp\<rparr>) inp edge_info rd (Conv_split_basis basis sp)
           degree_out ins st
       = Conv_inputs ops (self\<lparr>Conv_splits := sp'\<rparr>) inp edge_info rd (Conv_split_basis basis sp')
           degree_out ins st"
proof (induction ins arbitrary: st)
  case Nil
  then show ?case by simp
next
  case (Cons p ins)
  obtain degree_in m_in where p: "p = (degree_in, m_in)" by (cases p)
  show ?case
    unfolding p Conv_inputs.simps
    by (simp only: Conv_input_splits [OF sel edg bas, where self = self and sp = sp and sp' = sp'] Cons.IH)
qed

lemma Conv_output_splits:
  assumes sel: "\<And>d x. map_of inp d = Some x \<Longrightarrow>
                  length (op_index_select ops x (fst edge_info)) = length rd"
    and edg: "\<And>e. snd (snd edge_info) = Some e \<Longrightarrow> length e = length rd"
    and bas: "list_all (\<lambda>B. length B = length rd) (map snd basis)"
  shows "Conv_output ops (self\<lparr>Conv_splits := sp\<rparr>) inp edge_info rd (Conv_split_basis basis sp)
           degree_out
       = Conv_output ops (self\<lparr>Conv_splits := sp'\<rparr>) inp edge_info rd (Conv_split_basis basis sp')
           degree_out"
  unfolding Conv_output_def
  by (simp add: Conv_inputs_splits [OF sel edg bas, where self = self and sp = sp and sp' = sp']
      cong: option.case_cong sum.case_cong)

lemma Conv_outputs_splits:
  assumes sel: "\<And>d x. map_of inp d = Some x \<Longrightarrow>
                  length (op_index_select ops x (fst edge_info)) = length rd"
    and edg: "\<And>e. snd (snd edge_info) = Some e \<Longrightarrow> length e = length rd"
    and bas: "list_all (\<lambda>B. length B = length rd) (map snd basis)"
  shows "Conv_outputs ops (self\<lparr>Conv_splits := sp\<rparr>) inp edge_info rd (Conv_split_basis basis sp)
           outs outputs
       = Conv_outputs ops (self\<lparr>Conv_splits := sp'\<rparr>) inp edge_info rd (Conv_split_basis basis sp')
           outs outputs"
proof (induction outs arbitrary: outputs)
  case Nil
  then show ?case by simp
next
  case (Cons p outs)
  obtain degree_out m_out where p: "p = (degree_out, m_out)" by (cases p)
  show ?case
    unfolding p Conv_outputs.simps
    by (simp only: Conv_output_splits [OF sel edg bas, where self = self and sp = sp and sp' = sp'] Cons.IH)
qed

text \<open>
  C1. For every runtime, every Conv layer, every positive \<open>splits\<close> and every input whose
  gathered features, edge features and basis tensors have the same extent along the
  node axis, \<open>Conv.forward\<close> with \<open>splits = 1\<close> returns what it returns with that value of
  \<open>splits\<close>, an exception included.
\<close>

theorem Conv_forward_chunk_invariant:
  assumes "0 < s"
    and "\<forall>d x. map_of inp d = Some x \<longrightarrow>
           length (op_index_select ops x (fst edge_info)) = length rel_dist"
    and "\<forall>e. snd (snd edge_info) = Some e \<longrightarrow> length e = length rel_dist"
    and "\<forall>B\<in>set (map snd basis). length B = length rel_dist"
  shows "Conv_forward ops (self\<lparr>Conv_splits := 1\<rparr>) inp edge_info rel_dist basis
       = Conv_forward ops (self\<lparr>Conv_splits := s\<rparr>) inp edge_info rel_dist basis"
proof -
  let ?rd = "map (op_unsqueeze ops) rel_dist"
  have sel: "\<And>d x. map_of inp d = Some x \<Longrightarrow>
                  length (op_index_select ops x (fst edge_info)) = length ?rd"
    using assms(2) by simp
  have edg: "\<And>e. snd (snd edge_info) = Some e \<Longrightarrow> length e = length ?rd"
    using assms(3) by simp
  have bas: "list_all (\<lambda>B. length B = length ?rd) (map snd basis)"
    using assms(4) by (simp add: list_all_iff)
  show ?thesis
    unfolding Conv_forward_def Let_def
    by (simp add: Conv_outputs_splits [OF sel edg bas, where self = self and sp = 1 and sp' = s]
        cong: option.case_cong sum.case_cong if_cong)
qed


lemma toy_conv_init: "Conv_init toy_init [1] [1] True True None 4 = Inr toy_conv"
  by (simp add: Conv_init_def toy_conv_def fiber_product_def enumerate_eq_zip sub_init_def toy_init_def
      PairwiseConv_init_def RadialFunc_init_def Linear_init_def)

theorem Conv_forward_chunk_invariant_witness:
  "Conv_forward toy_ops (toy_conv\<lparr>Conv_splits := 1\<rparr>) [(0, [1, 2, 3, 4, 5])]
       ([], None, None) [1, 1, 2, 2, 3] [((0, 0), [1, 0, 1, 0, 1])]
     = Conv_forward toy_ops (toy_conv\<lparr>Conv_splits := 4\<rparr>) [(0, [1, 2, 3, 4, 5])]
       ([], None, None) [1, 1, 2, 2, 3] [((0, 0), [1, 0, 1, 0, 1])]"
  by (rule Conv_forward_chunk_invariant) (simp_all add: toy_ops_def)

section \<open>Properties of Equiformer.forward\<close>

text \<open>
  C8. Two forward calls on the same model that differ in \<open>adj_mat\<close> and in
  \<open>return_type\<close> only return the same result: neither argument is read.
\<close>

theorem forward_ignores_adj_mat_and_return_type:
  "Equiformer_forward ops self feats coors msk adj_mat edges return_type return_pooled neighbor_mask
     = Equiformer_forward ops self feats coors msk adj_mat' edges return_type' return_pooled
         neighbor_mask"
  by (simp add: Equiformer_forward_def)

text \<open>Two forward calls of toy models, evaluated.\<close>

lemma toy_forward_two_degrees:
  "Equiformer_forward toy_ops (toy_model 2 Infinity 1) (FeatTensor [1, 2, 3]) [1, 2, 3]
     None None None None False None
   = Inr \<lparr> type0 = [140, 2980, 20820], type1 = [130, 2960, 20790] \<rparr>"
  by code_simp

lemma toy_forward_one_degree:
  "Equiformer_forward toy_ops (toy_model 1 Infinity 1) (FeatTensor [1, 2, 3]) [1, 2, 3]
     None None None None False None
   = Inl (KeyError 1)"
  by code_simp

section \<open>Properties of Equiformer.forward: the degrees of the result\<close>

lemma update_keys_fresh:
  "k \<notin> set (map fst al) \<Longrightarrow> map fst (AList.update k v al) = map fst al @ [k]"
  by (simp add: update_keys)

lemma update_keys_present:
  "k \<in> set (map fst al) \<Longrightarrow> map fst (AList.update k v al) = map fst al"
  by (simp add: update_keys)

lemma Linear_loop_keys:
  assumes "Linear_loop ops dws x out = Inr r"
    and "distinct (map fst dws)" and "set (map fst dws) \<inter> set (map fst out) = {}"
  shows "map fst r = map fst out @ map fst dws"
  using assms
proof (induction dws arbitrary: out)
  case Nil
  then show ?case by simp
next
  case (Cons p dws)
  obtain degree weight where p: "p = (degree, weight)" by (cases p)
  from Cons.prems(1) obtain t where t: "map_of x degree = Some t"
    and rec: "Linear_loop ops dws x (AList.update degree (op_linear ops t weight) out) = Inr r"
    by (auto simp: p split: option.splits)
  have fresh: "degree \<notin> set (map fst out)" using Cons.prems(3) p by auto
  have keys: "map fst (AList.update degree (op_linear ops t weight) out) = map fst out @ [degree]"
    using fresh by (rule update_keys_fresh)
  have "map fst r = map fst (AList.update degree (op_linear ops t weight) out) @ map fst dws"
    using Cons.prems(2,3) p by (intro Cons.IH [OF rec]) (auto simp: keys)
  then show ?case by (simp add: keys p)
qed

lemma length_fiber_and:
  "length (fiber_and fiber_in fiber_out) = min (length fiber_in) (length fiber_out)"
  using arg_cong [OF fiber_and_degrees, where f = length, of fiber_in fiber_out] by simp

lemma Linear_init_forward_keys:
  assumes "Linear_forward ops (Linear_init init fiber_in fiber_out) x = Inr r"
  shows "map fst r = [0..<min (length fiber_in) (length fiber_out)]"
proof -
  let ?fa = "fiber_and fiber_in fiber_out"
  let ?dws = "zip (map (\<lambda>(degree, dim_in, dim_out). degree) ?fa)
                  (map (\<lambda>(degree, dim_in, dim_out). init [degree]) ?fa)"
  have d: "map (\<lambda>(degree, dim_in, dim_out). degree) ?fa = map fst ?fa"
    by (rule map_cong) auto
  have keys: "map fst ?dws = [0..<min (length fiber_in) (length fiber_out)]"
    by (simp add: d fiber_and_degrees length_fiber_and)
  have run: "Linear_loop ops ?dws x [] = Inr r"
    using assms by (simp add: Linear_forward_def Linear_init_def)
  show ?thesis
    using Linear_loop_keys [OF run] keys by simp
qed

lemma Norm_loop_keys:
  assumes "Norm_loop nrm eps zs out = Inr r"
    and "distinct (map (fst \<circ> snd) zs)" and "set (map (fst \<circ> snd) zs) \<inter> set (map fst out) = {}"
  shows "map fst r = map fst out @ map (fst \<circ> snd) zs"
  using assms
proof (induction zs arbitrary: out)
  case Nil
  then show ?case by simp
next
  case (Cons p zs)
  obtain scale degree t where p: "p = (scale, (degree, t))" by (cases p) auto
  from Cons.prems(1) obtain v where v: "nrm eps scale t = Inr v"
    and rec: "Norm_loop nrm eps zs (AList.update degree v out) = Inr r"
    by (auto simp: p split: sum.splits)
  have fresh: "degree \<notin> set (map fst out)" using Cons.prems(3) p by auto
  have keys: "map fst (AList.update degree v out) = map fst out @ [degree]"
    using fresh by (rule update_keys_fresh)
  have "map fst r = map fst (AList.update degree v out) @ map (fst \<circ> snd) zs"
    using Cons.prems(2,3) p by (intro Cons.IH [OF rec]) (auto simp: keys)
  then show ?case by (simp add: keys p)
qed

lemma Norm_init_forward_keys:
  assumes "Norm_forward nrm (Norm_init init fiber eps) x = Inr r"
    and "map fst x = [0..<k]" and "k \<le> length fiber"
  shows "map fst r = [0..<k]"
proof -
  let ?ws = "map (\<lambda>(degree, dim_d). init [degree]) (List.enumerate 0 fiber)"
  have lw: "length ?ws = length fiber" by simp
  have lx: "length x = k" using assms(2) by (metis length_map length_upt diff_zero)
  have keys: "map (fst \<circ> snd) (zip ?ws x) = [0..<k]"
  proof -
    have s: "map snd (zip ?ws x) = x"
      using map_snd_zip_take [of ?ws x] lw lx assms(3) by simp
    have "map (fst \<circ> snd) (zip ?ws x) = map fst (map snd (zip ?ws x))"
      by (simp only: map_map)
    then show ?thesis by (simp only: s assms(2))
  qed
  have run: "Norm_loop nrm eps (zip ?ws x) [] = Inr r"
    using assms(1) by (simp add: Norm_forward_def Norm_init_def)
  show ?thesis
    using Norm_loop_keys [OF run] keys by simp
qed

lemma residual_loop_keys:
  assumes "distinct (map fst x)" and "set (map fst x) \<inter> set (map fst out) = {}"
  shows "map fst (residual_loop add x residual out) = map fst out @ map fst x"
  using assms
proof (induction x arbitrary: out)
  case Nil
  then show ?case by simp
next
  case (Cons p x)
  obtain degree tensor where p: "p = (degree, tensor)" by (cases p)
  have fresh: "degree \<notin> set (map fst out)" using Cons.prems(2) p by auto
  have k1: "map fst (AList.update degree v out) = map fst out @ [degree]" for v
    using fresh by (rule update_keys_fresh)
  have k2: "map fst (AList.update degree v (AList.update degree tensor out)) = map fst out @ [degree]" for v
  proof -
    have "AList.update degree v (AList.update degree tensor out) = AList.update degree v out"
      by simp
    then show ?thesis by (simp only: update_keys_fresh [OF fresh])
  qed
  have d: "distinct (map fst x)" and n: "degree \<notin> set (map fst x)"
    using Cons.prems(1) p by auto
  have dis: "set (map fst x) \<inter> set (map fst out @ [degree]) = {}"
    using Cons.prems(2) n p by auto
  show ?case
  proof (cases "map_of residual degree")
    case None
    have "map fst (residual_loop add x residual (AList.update degree tensor out))
            = map fst (AList.update degree tensor out) @ map fst x"
      by (rule Cons.IH [OF d]) (simp only: k1 dis)
    then show ?thesis by (simp add: p None Let_def k1)
  next
    case (Some rv)
    have "map fst (residual_loop add x residual
                     (AList.update degree (add tensor rv) (AList.update degree tensor out)))
            = map fst (AList.update degree (add tensor rv) (AList.update degree tensor out)) @ map fst x"
      by (rule Cons.IH [OF d]) (simp only: k2 dis)
    then show ?thesis by (simp add: p Some Let_def k1)
  qed
qed

lemma residual_fn_keys:
  "distinct (map fst x) \<Longrightarrow> map fst (residual_fn ops x residual) = map fst x"
  by (simp add: residual_fn_def residual_loop_keys)

lemma Conv_outputs_keys:
  assumes "Conv_outputs ops self inp edge_info rel_dist split_basis outs outputs = Inr r"
    and "distinct (map fst outs)" and "set (map fst outs) \<inter> set (map fst outputs) = {}"
  shows "map fst r = map fst outputs @ map fst outs"
  using assms
proof (induction outs arbitrary: outputs)
  case Nil
  then show ?case by simp
next
  case (Cons p outs)
  obtain degree_out m_out where p: "p = (degree_out, m_out)" by (cases p)
  from Cons.prems(1) obtain outp where
    rec: "Conv_outputs ops self inp edge_info rel_dist split_basis outs
            (AList.update degree_out outp outputs) = Inr r"
    by (auto simp: p split: sum.splits)
  have fresh: "degree_out \<notin> set (map fst outputs)" using Cons.prems(3) p by auto
  have keys: "map fst (AList.update degree_out outp outputs) = map fst outputs @ [degree_out]"
    using fresh by (rule update_keys_fresh)
  have "map fst r = map fst (AList.update degree_out outp outputs) @ map fst outs"
    using Cons.prems(2,3) p by (intro Cons.IH [OF rec]) (auto simp: keys)
  then show ?case by (simp add: keys p)
qed

lemma Conv_forward_keys:
  assumes "Conv_forward ops self inp edge_info rel_dist basis = Inr r"
  shows "map fst r = [0..<length (Conv_fiber_out self)]"
proof -
  let ?outs = "List.enumerate 0 (Conv_fiber_out self)"
  have k: "map fst ?outs = [0..<length (Conv_fiber_out self)]"
    by (simp add: enumerate_eq_zip)
  from assms obtain outputs where
    run: "Conv_outputs ops self inp edge_info (map (op_unsqueeze ops) rel_dist)
            (Conv_split_basis basis (Conv_splits self)) ?outs [] = Inr outputs"
    and r: "r = outputs \<or> (\<exists>s. r = residual_fn ops outputs s)"
    by (auto simp: Conv_forward_def Let_def split: sum.splits if_splits option.splits)
  have ko': "map fst outputs = [0..<length (Conv_fiber_out self)]"
    using Conv_outputs_keys [OF run] k by simp
  from r show ?thesis
  proof
    assume "r = outputs"
    then show ?thesis by (simp add: ko')
  next
    assume "\<exists>s. r = residual_fn ops outputs s"
    then obtain s where "r = residual_fn ops outputs s" ..
    then show ?thesis by (simp add: residual_fn_keys ko')
  qed
qed

lemma FeedForward_forward_keys:
  assumes "FeedForward_forward ops ff x = Inr r"
    and "FeedForward_init init fiber fiber_out mult = Inr ff"
  shows "map fst r = [0..<min (length fiber) (length (default_val fiber_out fiber))]"
proof -
  from assms(2) have po: "FF_project_out ff =
      Linear_init (sub_init init [2]) (map (\<lambda>dim_d. dim_d * mult) fiber) (default_val fiber_out fiber)"
    by (auto simp: FeedForward_init_def Let_def split: list.splits sum.splits)
  from assms(1) obtain y where "Linear_forward ops (FF_project_out ff) y = Inr r"
    by (auto simp: FeedForward_forward_def split: sum.splits)
  then show ?thesis
    unfolding po by (auto dest: Linear_init_forward_keys)
qed

lemma Equiformer_layers_keys:
  assumes "Equiformer_layers ops layers x edge_info rel_dist basis msk = Inr r"
    and "map fst x = [0..<k]"
    and "list_all (\<lambda>(attn, ff). \<exists>init. FeedForward_init init fiber None 4 = Inr ff) layers"
    and "length fiber = k"
  shows "map fst r = [0..<k]"
  using assms(1,2,3)
proof (induction layers arbitrary: x)
  case Nil
  then show ?case by simp
next
  case (Cons p layers)
  obtain attn ff where p: "p = (attn, ff)" by (cases p)
  from Cons.prems(3) obtain init where init: "FeedForward_init init fiber None 4 = Inr ff"
    by (auto simp: p)
  from Cons.prems(1) obtain a f where
    f: "FeedForward_forward ops ff (residual_fn ops a x) = Inr f"
    and rec: "Equiformer_layers ops layers (residual_fn ops f (residual_fn ops a x))
                edge_info rel_dist basis msk = Inr r"
    by (auto simp: p Let_def split: sum.splits)
  have kf: "map fst f = [0..<k]"
    using FeedForward_forward_keys [OF f init] assms(4) by (simp add: default_val_def)
  have "map fst (residual_fn ops f (residual_fn ops a x)) = [0..<k]"
    by (simp add: residual_fn_keys kf)
  then show ?case
    using Cons.prems(3) by (intro Cons.IH [OF rec]) simp_all
qed

lemma sequence_err_map_Inr:
  assumes "sequence_err (map f xs) = Inr ys"
  shows "list_all (\<lambda>y. \<exists>x. f x = Inr y) ys"
  using assms
proof (induction xs arbitrary: ys)
  case Nil
  then show ?case by simp
next
  case (Cons x xs)
  then show ?case
    by (cases "f x"; cases "sequence_err (map f xs)") auto
qed

lemma Conv_init_fiber_out:
  "Conv_init init fiber_in fiber_out self_interaction pool edge_dim splits = Inr conv
     \<Longrightarrow> Conv_fiber_out conv = fiber_out"
  by (auto simp: Conv_init_def Let_def split: if_splits)

lemma Equiformer_layer_init_ff:
  "Equiformer_layer_init init dim_t cfg ind = Inr (attn, ff)
     \<Longrightarrow> \<exists>init'. FeedForward_init init' dim_t None 4 = Inr ff"
  by (auto simp: Equiformer_layer_init_def split: sum.splits)

lemma Equiformer_init_constructed:
  assumes "Equiformer_init init cfg = Inr self"
  shows "\<exists>dim_t. int (length dim_t) = c_num_degrees cfg \<and> constructed_with self dim_t"
proof -
  define dim_t where "dim_t = cast_tuple (c_dim cfg) (c_num_degrees cfg)"
  have len: "int (length dim_t) = c_num_degrees cfg"
    using assms by (auto simp: Equiformer_init_def Let_def dim_t_def split: if_splits)
  from assms obtain conv_in layers ff_out where
    conv: "Conv_init (sub_init init [3])
             (cast_tuple (default_val (c_dim_in cfg) (TupleVal [hd dim_t])) (c_input_degrees cfg))
             dim_t True True (c_edge_dim cfg) (c_splits cfg) = Inr conv_in"
    and lay: "sequence_err (map (Equiformer_layer_init init dim_t cfg) [0..<nat (c_depth cfg)])
                = Inr layers"
    and ff: "(if c_reduce_dim_out cfg
              then (if c_linear_out cfg
                    then Inr (Some (ProjLinear (Linear_init (sub_init init [6]) dim_t
                                                  (replicate (length dim_t) 1))))
                    else (case FeedForward_init (sub_init init [6]) dim_t
                                 (Some (replicate (length dim_t) 1)) 4 of
                            Inl e \<Rightarrow> Inl e
                          | Inr ff \<Rightarrow> Inr (Some (ProjFeedForward ff))))
              else Inr None) = Inr ff_out"
    and fields: "E_num_degrees self = length dim_t" "E_conv_in self = conv_in"
      "E_norm self = Norm_init (sub_init init [5]) dim_t (1 / 10 ^ 12)"
      "E_layers self = layers" "E_ff_out self = ff_out"
    by (auto simp: Equiformer_init_def Let_def dim_t_def
        split: if_splits list.splits sum.splits)
  have l: "list_all (\<lambda>(attn, ff). \<exists>init. FeedForward_init init dim_t None 4 = Inr ff) layers"
    using sequence_err_map_Inr [OF lay]
    by (auto simp: list_all_iff dest: Equiformer_layer_init_ff)
  have f: "case ff_out of
         None \<Rightarrow> True
       | Some (ProjLinear lin) \<Rightarrow>
           (\<exists>init. lin = Linear_init init dim_t (replicate (length dim_t) 1))
       | Some (ProjFeedForward ff) \<Rightarrow>
           (\<exists>init. FeedForward_init init dim_t (Some (replicate (length dim_t) 1)) 4 = Inr ff)"
    using ff by (auto split: if_splits sum.splits)
  have "constructed_with self dim_t"
    unfolding constructed_with_def fields
    using Conv_init_fiber_out [OF conv] l f by auto
  with len show ?thesis by blast
qed

lemma map_fst_map_value: "map fst (map (\<lambda>(k, v). (k, f v)) x) = map fst x"
  by (induction x) auto

lemma forward_features_keys:
  assumes "forward_features ops self feats edge_info rd rpos mask0 return_pooled = Inr x"
    and "constructed_with self dim_t"
  shows "map fst x = [0..<length dim_t]"
proof -
  from assms(2) obtain ninit where
    c: "Conv_fiber_out (E_conv_in self) = dim_t"
    and nrm: "E_norm self = Norm_init ninit dim_t (1 / 10 ^ 12)"
    and lay: "list_all (\<lambda>(attn, ff). \<exists>init. FeedForward_init init dim_t None 4 = Inr ff) (E_layers self)"
    and ffo: "case E_ff_out self of
         None \<Rightarrow> True
       | Some (ProjLinear lin) \<Rightarrow>
           (\<exists>init. lin = Linear_init init dim_t (replicate (length dim_t) 1))
       | Some (ProjFeedForward ff) \<Rightarrow>
           (\<exists>init. FeedForward_init init dim_t (Some (replicate (length dim_t) 1)) 4 = Inr ff)"
    by (auto simp: constructed_with_def)
  from assms(1) obtain basis x1 x2 x3 x4 where
    s1: "Conv_forward ops (E_conv_in self) feats edge_info rd basis = Inr x1"
    and s2: "Equiformer_layers ops (E_layers self) x1 edge_info rd basis mask0 = Inr x2"
    and s3: "Norm_forward (op_rmsnorm ops) (E_norm self) x2 = Inr x3"
    and s4: "(case E_ff_out self of
               None \<Rightarrow> Inr x3
             | Some ff_out \<Rightarrow>
                 (case proj_out_forward ops ff_out x3 of
                    Inl e \<Rightarrow> Inl e
                  | Inr x \<Rightarrow> Inr (map (\<lambda>(k, v). (k, op_squeeze_channel ops v)) x))) = Inr x4"
    and s5: "x = (if return_pooled then map (\<lambda>(k, v). (k, op_pool_nodes ops v mask0)) x4 else x4)"
    by (auto simp: forward_features_def Let_def split: sum.splits)
  have k1: "map fst x1 = [0..<length dim_t]"
    using Conv_forward_keys [OF s1] c by simp
  have k2: "map fst x2 = [0..<length dim_t]"
    by (rule Equiformer_layers_keys [OF s2 k1 lay refl])
  have k3: "map fst x3 = [0..<length dim_t]"
    using s3 unfolding nrm by (rule Norm_init_forward_keys [OF _ k2]) simp
  have k4: "map fst x4 = [0..<length dim_t]"
  proof (cases "E_ff_out self")
    case None
    then show ?thesis using s4 k3 by simp
  next
    case (Some p)
    from s4 Some obtain y where y: "proj_out_forward ops p x3 = Inr y"
      and x4: "x4 = map (\<lambda>(k, v). (k, op_squeeze_channel ops v)) y"
      by (auto split: sum.splits)
    have "map fst y = [0..<length dim_t]"
    proof (cases p)
      case (ProjLinear lin)
      then obtain i where "lin = Linear_init i dim_t (replicate (length dim_t) 1)"
        using ffo Some by auto
      then show ?thesis
        using y ProjLinear by (auto simp: proj_out_forward_def dest: Linear_init_forward_keys)
    next
      case (ProjFeedForward ff)
      then obtain i where "FeedForward_init i dim_t (Some (replicate (length dim_t) 1)) 4 = Inr ff"
        using ffo Some by auto
      then show ?thesis
        using y ProjFeedForward
        by (auto simp: proj_out_forward_def default_val_def dest: FeedForward_forward_keys)
    qed
    then show ?thesis unfolding x4 by (simp only: map_fst_map_value)
  qed
  show ?thesis
    unfolding s5 by (cases return_pooled) (simp_all only: if_True if_False map_fst_map_value k4)
qed

lemma map_of_upt_keys:
  assumes "map fst x = [0..<k]"
  shows "(map_of x d = None) \<longleftrightarrow> k \<le> d"
proof -
  have "(map_of x d = None) \<longleftrightarrow> d \<notin> set (map fst x)"
    by (simp add: map_of_eq_None_iff)
  then show ?thesis using assms by auto
qed

lemma forward_return_one_degree:
  "map fst x = [0..<1] \<Longrightarrow> forward_return ops x = Inl (KeyError 1)"
  using map_of_upt_keys [of x 1 0] map_of_upt_keys [of x 1 1]
  by (auto simp: forward_return_def split: option.splits)

lemma forward_return_Inr:
  "map fst x = [0..<k] \<Longrightarrow> forward_return ops x = Inr r \<Longrightarrow> 2 \<le> k"
  using map_of_upt_keys [of x k 1]
  by (auto simp: forward_return_def split: option.splits)

text \<open>
  C10. For a model that \<open>Equiformer.__init__\<close> has constructed, the final feature map of
  a forward call holds exactly the degrees below \<open>num_degrees\<close>
  (\<open>forward_features_keys\<close>), and the return stage reads the degrees 0 and 1. With
  \<open>num_degrees = 1\<close> no forward call returns, and a call that reaches the return stage
  raises \<open>KeyError\<close> for the degree 1 there; a forward call returns only if
  \<open>num_degrees >= 2\<close>.
\<close>

theorem forward_needs_two_degrees:
  assumes "Equiformer_init init cfg = Inr self"
  shows "(c_num_degrees cfg = 1 \<longrightarrow>
            (\<forall>r. Equiformer_forward ops self feats coors msk adj_mat edges return_type
                   return_pooled neighbor_mask \<noteq> Inr r)
          \<and> (\<forall>x. forward_features ops self feats' edge_info rd rpos mask0 pooled = Inr x
                   \<longrightarrow> forward_return ops x = Inl (KeyError 1)))
       \<and> (\<forall>r. Equiformer_forward ops self feats coors msk adj_mat edges return_type
                 return_pooled neighbor_mask = Inr r \<longrightarrow> 2 \<le> c_num_degrees cfg)"
proof -
  from Equiformer_init_constructed [OF assms] obtain dim_t where
    len: "int (length dim_t) = c_num_degrees cfg" and c: "constructed_with self dim_t"
    by blast
  have ret: "2 \<le> c_num_degrees cfg"
    if "Equiformer_forward ops self feats coors msk adj_mat edges return_type
          return_pooled neighbor_mask = Inr r" for r
  proof -
    from that obtain f ei d p m x where
      "forward_features ops self f ei d p m return_pooled = Inr x"
      and "forward_return ops x = Inr r"
      by (auto simp: Equiformer_forward_def Let_def split: sum.splits prod.splits)
    then have "2 \<le> length dim_t"
      using forward_features_keys [OF _ c] forward_return_Inr by blast
    then show ?thesis using len by simp
  qed
  have one: "forward_return ops x = Inl (KeyError 1)"
    if "c_num_degrees cfg = 1"
      and "forward_features ops self feats' edge_info rd rpos mask0 pooled = Inr x" for x
  proof -
    have "length dim_t = 1" using that(1) len by simp
    then have "map fst x = [0..<1]"
      using forward_features_keys [OF that(2) c] by simp
    then show ?thesis by (rule forward_return_one_degree)
  qed
  show ?thesis using ret one by fastforce
qed

theorem forward_needs_two_degrees_witness:
  "Equiformer_init toy_init (toy_config 1 1 Infinity 1) = Inr (toy_model 1 Infinity 1)
   \<and> (\<forall>r. Equiformer_forward toy_ops (toy_model 1 Infinity 1) (FeatTensor [1, 2, 3]) [1, 2, 3]
             None None None None False None \<noteq> Inr r)
   \<and> Equiformer_forward toy_ops (toy_model 1 Infinity 1) (FeatTensor [1, 2, 3]) [1, 2, 3]
        None None None None False None = Inl (KeyError 1)"
proof -
  have "\<not> isl (Equiformer_init toy_init (toy_config 1 1 Infinity 1))" by code_simp
  then have h: "Equiformer_init toy_init (toy_config 1 1 Infinity 1) = Inr (toy_model 1 Infinity 1)"
    by (simp add: toy_model_def)
  have n: "c_num_degrees (toy_config 1 1 Infinity 1) = 1" by (simp add: toy_config_def)
  have e: "Equiformer_forward toy_ops (toy_model 1 Infinity 1) (FeatTensor [1, 2, 3]) [1, 2, 3]
        None None None None False None = Inl (KeyError 1)"
    by code_simp
  from forward_needs_two_degrees [OF h, of toy_ops "FeatTensor [1, 2, 3]" "[1, 2, 3]" None None
      None None False None] n h e
  show ?thesis by blast
qed

end
